theory Spec2Isabelle
  imports Complex_Main
begin

unbundle bit_operations_syntax

section \<open>Text, bytes and exceptions\<close>

text \<open>
  A datagram is a list of bytes, and \<^typ>\<open>char\<close> is a byte. Python text is modelled as
  \<^typ>\<open>string\<close> too: a character below 128 is that ASCII character, a character from 128 up
  stands for a character outside ASCII. The only such character a decoded response can
  hold is U+FFFD, the replacement character, written \<open>replacement_char\<close> here; it is
  not whitespace, not a digit and has no ASCII encoding.

  \<open>exn\<close> holds the exceptions the library calls raise here; all are subclasses of
  \<open>Exception\<close>, and \<open>TimeoutError\<close> is \<open>socket.timeout\<close>.
\<close>

datatype exn = OSError | TimeoutError | ValueError | UnicodeEncodeError | OverflowError

definition replacement_char :: char where
  "replacement_char = CHR 0xFF"

definition is_ascii :: "char \<Rightarrow> bool" where
  "is_ascii c = ((of_char c :: nat) < 128)"

text \<open>\<open>msg.encode("ascii")\<close>: raises UnicodeEncodeError on a character outside ASCII.\<close>

definition encode_ascii :: "string \<Rightarrow> exn + string" where
  "encode_ascii s = (if list_all is_ascii s then Inr s else Inl UnicodeEncodeError)"

text \<open>\<open>data.decode("ascii", errors="replace")\<close>: every byte from 0x80 up becomes U+FFFD.\<close>

definition decode_ascii_replace :: "string \<Rightarrow> string" where
  "decode_ascii_replace data = map (\<lambda>b. if is_ascii b then b else replacement_char) data"

text \<open>
  The whitespace of \<open>str.split()\<close> and \<open>str.strip()\<close> on such text: TAB, LF, VT, FF, CR,
  FS, GS, RS, US and the space.
\<close>

definition isspace :: "char \<Rightarrow> bool" where
  "isspace c = (c \<in> set [CHR 0x09, CHR 0x0A, CHR 0x0B, CHR 0x0C, CHR 0x0D,
                          CHR 0x1C, CHR 0x1D, CHR 0x1E, CHR 0x1F, CHR 0x20])"

definition strip :: "string \<Rightarrow> string" where
  "strip s = rev (dropWhile isspace (rev (dropWhile isspace s)))"

text \<open>
  \<open>str.split()\<close> without arguments: the maximal runs of characters that are not
  whitespace, in order; \<open>cur\<close> is the token being read.
\<close>

fun split_from :: "string \<Rightarrow> string \<Rightarrow> string list" where
  "split_from cur [] = (if cur = [] then [] else [cur])"
| "split_from cur (c # cs) =
     (if isspace c then (if cur = [] then split_from [] cs else cur # split_from [] cs)
      else split_from (cur @ [c]) cs)"

definition split :: "string \<Rightarrow> string list" where
  "split s = split_from [] s"

text \<open>\<open>sep.join(xs)\<close>.\<close>

fun join :: "string \<Rightarrow> string list \<Rightarrow> string" where
  "join sep [] = []"
| "join sep [x] = x"
| "join sep (x # y # ys) = x @ sep @ join sep (y # ys)"

section \<open>Integer formatting and parsing\<close>

definition digit_char :: "nat \<Rightarrow> char" where
  "digit_char d = ''0123456789ABCDEF'' ! d"

fun hex_digits :: "nat \<Rightarrow> string" where
  "hex_digits n = (if n < 16 then [digit_char n] else hex_digits (n div 16) @ [digit_char (n mod 16)])"

fun dec_digits :: "nat \<Rightarrow> string" where
  "dec_digits n = (if n < 10 then [digit_char n] else dec_digits (n div 10) @ [digit_char (n mod 10)])"

declare hex_digits.simps [simp del] dec_digits.simps [simp del]

text \<open>
  \<open>str(i)\<close> for an int, which the empty format specification \<open>{i}\<close> gives too. From
  CPython 3.11 on the conversion raises ValueError when the integer has more than
  \<open>int_max_str_digits\<close> decimal digits, the sign not counted; the limit is the
  interpreter's default.
\<close>

definition int_max_str_digits :: nat where
  "int_max_str_digits = 4300"

definition str_int :: "int \<Rightarrow> exn + string" where
  "str_int i =
     (let digits = dec_digits (nat \<bar>i\<bar>)
      in if int_max_str_digits < length digits then Inl ValueError
         else Inr (if i < 0 then CHR ''-'' # digits else digits))"

text \<open>The format specification \<open>{i:X}\<close>: uppercase hexadecimal, a minus sign when negative.\<close>

definition format_X :: "int \<Rightarrow> string" where
  "format_X i = (if i < 0 then CHR ''-'' # hex_digits (nat (- i)) else hex_digits (nat i))"

text \<open>
  The format specification \<open>{i:02X}\<close>: as \<open>X\<close>, padded with zeros after the sign to a
  total width of two.
\<close>

definition zero_pad :: "nat \<Rightarrow> string \<Rightarrow> string" where
  "zero_pad w s = replicate (w - length s) (CHR ''0'') @ s"

definition format_02X :: "int \<Rightarrow> string" where
  "format_02X i = (if i < 0 then CHR ''-'' # zero_pad 1 (hex_digits (nat (- i)))
                   else zero_pad 2 (hex_digits (nat i)))"

text \<open>
  \<open>int(s, 16)\<close>, after CPython's \<open>PyLong_FromString\<close>: whitespace of the C locale is
  skipped on both sides; an optional sign; an optional \<open>0x\<close> or \<open>0X\<close>, which may be
  followed by one underscore; then hexadecimal digits, single underscores allowed between
  them. Anything else raises ValueError.
\<close>

definition Py_ISSPACE :: "char \<Rightarrow> bool" where
  "Py_ISSPACE c = (c \<in> set [CHR 0x09, CHR 0x0A, CHR 0x0B, CHR 0x0C, CHR 0x0D, CHR 0x20])"

definition PyLong_DigitValue :: "char \<Rightarrow> nat" where
  "PyLong_DigitValue c =
     (let n = (of_char c :: nat) in
      if 48 \<le> n \<and> n \<le> 57 then n - 48
      else if 97 \<le> n \<and> n \<le> 122 then n - 87
      else if 65 \<le> n \<and> n \<le> 90 then n - 55
      else 37)"

text \<open>
  The digit loop of \<open>long_from_binary_base\<close>: \<open>prev\<close> is the previous character, \<open>acc\<close>
  the value read so far. The result is the value and the unread rest, or \<open>None\<close> on a
  doubled or trailing underscore.
\<close>

fun scan_digits :: "char \<Rightarrow> nat \<Rightarrow> string \<Rightarrow> (nat \<times> string) option" where
  "scan_digits prev acc [] = (if prev = CHR ''_'' then None else Some (acc, []))"
| "scan_digits prev acc (c # cs) =
     (if c = CHR ''_'' then (if prev = CHR ''_'' then None else scan_digits c acc cs)
      else if PyLong_DigitValue c < 16 then scan_digits c (acc * 16 + PyLong_DigitValue c) cs
      else if prev = CHR ''_'' then None
      else Some (acc, c # cs))"

definition skip_sign :: "string \<Rightarrow> bool \<times> string" where
  "skip_sign s =
     (case s of
        [] \<Rightarrow> (False, s)
      | c # r \<Rightarrow> if c = CHR ''+'' then (False, r) else if c = CHR ''-'' then (True, r)
                 else (False, s))"

definition skip_prefix :: "string \<Rightarrow> string" where
  "skip_prefix s =
     (case s of
        c # x # r \<Rightarrow>
          if c = CHR ''0'' \<and> (x = CHR ''x'' \<or> x = CHR ''X'')
          then (case r of [] \<Rightarrow> r | u # r' \<Rightarrow> if u = CHR ''_'' then r' else r)
          else s
      | _ \<Rightarrow> s)"

definition int_base16 :: "string \<Rightarrow> exn + int" where
  "int_base16 s =
     (let (neg, s2) = skip_sign (dropWhile Py_ISSPACE s);
          start = skip_prefix s2
      in if start \<noteq> [] \<and> hd start = CHR ''_'' then Inl ValueError
         else (case scan_digits (CHR 0x00) 0 start of
                 None \<Rightarrow> Inl ValueError
               | Some (v, rest) \<Rightarrow>
                   if rest = start then Inl ValueError
                   else if dropWhile Py_ISSPACE rest \<noteq> [] then Inl ValueError
                   else Inr (if neg then - int v else int v)))"

section \<open>The command catalog\<close>

text \<open>The members of the enumeration \<open>NCICommand\<close>; \<open>name\<close> is a member's \<open>.name\<close>.\<close>

datatype NCICommand =
    VERSION | GET_STATUS | GET_CONFIG_PARAM | SHOW_MESG
  | SET_SHADER | READ_CORE_MEMORY | WRITE_CORE_MEMORY | LOAD_STATE_SLOT
  | PLAY_REPLAY_SLOT | MENU_TOGGLE | QUIT | CLOSE_CONTENT
  | RESET | FAST_FORWARD | FAST_FORWARD_HOLD | SLOWMOTION
  | SLOWMOTION_HOLD | REWIND | PAUSE_TOGGLE | FRAMEADVANCE
  | MUTE | VOLUME_UP | VOLUME_DOWN | LOAD_STATE
  | SAVE_STATE | STATE_SLOT_PLUS | STATE_SLOT_MINUS | PLAY_REPLAY
  | RECORD_REPLAY | HALT_REPLAY | REPLAY_SLOT_PLUS | REPLAY_SLOT_MINUS
  | DISK_EJECT_TOGGLE | DISK_NEXT | DISK_PREV | SHADER_TOGGLE
  | SHADER_NEXT | SHADER_PREV | CHEAT_TOGGLE | CHEAT_INDEX_PLUS
  | CHEAT_INDEX_MINUS | SCREENSHOT | RECORDING_TOGGLE | STREAMING_TOGGLE
  | GRAB_MOUSE_TOGGLE | GAME_FOCUS_TOGGLE | FULLSCREEN_TOGGLE | UI_COMPANION_TOGGLE
  | VRR_RUNLOOP_TOGGLE | RUNAHEAD_TOGGLE | PREEMPT_TOGGLE | FPS_TOGGLE
  | STATISTICS_TOGGLE | AI_SERVICE | NETPLAY_PING_TOGGLE | NETPLAY_HOST_TOGGLE
  | NEPLAY_GAME_WATCH | NETPLAY_PLAYER_CHAT | NETPLAY_FADE_CHAT_TOGGLE | MENU_UP
  | MENU_DOWN | MENU_LEFT | MENU_RIGHT | MENU_A
  | MENU_B | OVERLAY_NEXT | OSK

fun name :: "NCICommand \<Rightarrow> string" where
  "name VERSION = ''VERSION''"
| "name GET_STATUS = ''GET_STATUS''"
| "name GET_CONFIG_PARAM = ''GET_CONFIG_PARAM''"
| "name SHOW_MESG = ''SHOW_MESG''"
| "name SET_SHADER = ''SET_SHADER''"
| "name READ_CORE_MEMORY = ''READ_CORE_MEMORY''"
| "name WRITE_CORE_MEMORY = ''WRITE_CORE_MEMORY''"
| "name LOAD_STATE_SLOT = ''LOAD_STATE_SLOT''"
| "name PLAY_REPLAY_SLOT = ''PLAY_REPLAY_SLOT''"
| "name MENU_TOGGLE = ''MENU_TOGGLE''"
| "name QUIT = ''QUIT''"
| "name CLOSE_CONTENT = ''CLOSE_CONTENT''"
| "name RESET = ''RESET''"
| "name FAST_FORWARD = ''FAST_FORWARD''"
| "name FAST_FORWARD_HOLD = ''FAST_FORWARD_HOLD''"
| "name SLOWMOTION = ''SLOWMOTION''"
| "name SLOWMOTION_HOLD = ''SLOWMOTION_HOLD''"
| "name REWIND = ''REWIND''"
| "name PAUSE_TOGGLE = ''PAUSE_TOGGLE''"
| "name FRAMEADVANCE = ''FRAMEADVANCE''"
| "name MUTE = ''MUTE''"
| "name VOLUME_UP = ''VOLUME_UP''"
| "name VOLUME_DOWN = ''VOLUME_DOWN''"
| "name LOAD_STATE = ''LOAD_STATE''"
| "name SAVE_STATE = ''SAVE_STATE''"
| "name STATE_SLOT_PLUS = ''STATE_SLOT_PLUS''"
| "name STATE_SLOT_MINUS = ''STATE_SLOT_MINUS''"
| "name PLAY_REPLAY = ''PLAY_REPLAY''"
| "name RECORD_REPLAY = ''RECORD_REPLAY''"
| "name HALT_REPLAY = ''HALT_REPLAY''"
| "name REPLAY_SLOT_PLUS = ''REPLAY_SLOT_PLUS''"
| "name REPLAY_SLOT_MINUS = ''REPLAY_SLOT_MINUS''"
| "name DISK_EJECT_TOGGLE = ''DISK_EJECT_TOGGLE''"
| "name DISK_NEXT = ''DISK_NEXT''"
| "name DISK_PREV = ''DISK_PREV''"
| "name SHADER_TOGGLE = ''SHADER_TOGGLE''"
| "name SHADER_NEXT = ''SHADER_NEXT''"
| "name SHADER_PREV = ''SHADER_PREV''"
| "name CHEAT_TOGGLE = ''CHEAT_TOGGLE''"
| "name CHEAT_INDEX_PLUS = ''CHEAT_INDEX_PLUS''"
| "name CHEAT_INDEX_MINUS = ''CHEAT_INDEX_MINUS''"
| "name SCREENSHOT = ''SCREENSHOT''"
| "name RECORDING_TOGGLE = ''RECORDING_TOGGLE''"
| "name STREAMING_TOGGLE = ''STREAMING_TOGGLE''"
| "name GRAB_MOUSE_TOGGLE = ''GRAB_MOUSE_TOGGLE''"
| "name GAME_FOCUS_TOGGLE = ''GAME_FOCUS_TOGGLE''"
| "name FULLSCREEN_TOGGLE = ''FULLSCREEN_TOGGLE''"
| "name UI_COMPANION_TOGGLE = ''UI_COMPANION_TOGGLE''"
| "name VRR_RUNLOOP_TOGGLE = ''VRR_RUNLOOP_TOGGLE''"
| "name RUNAHEAD_TOGGLE = ''RUNAHEAD_TOGGLE''"
| "name PREEMPT_TOGGLE = ''PREEMPT_TOGGLE''"
| "name FPS_TOGGLE = ''FPS_TOGGLE''"
| "name STATISTICS_TOGGLE = ''STATISTICS_TOGGLE''"
| "name AI_SERVICE = ''AI_SERVICE''"
| "name NETPLAY_PING_TOGGLE = ''NETPLAY_PING_TOGGLE''"
| "name NETPLAY_HOST_TOGGLE = ''NETPLAY_HOST_TOGGLE''"
| "name NEPLAY_GAME_WATCH = ''NEPLAY_GAME_WATCH''"
| "name NETPLAY_PLAYER_CHAT = ''NETPLAY_PLAYER_CHAT''"
| "name NETPLAY_FADE_CHAT_TOGGLE = ''NETPLAY_FADE_CHAT_TOGGLE''"
| "name MENU_UP = ''MENU_UP''"
| "name MENU_DOWN = ''MENU_DOWN''"
| "name MENU_LEFT = ''MENU_LEFT''"
| "name MENU_RIGHT = ''MENU_RIGHT''"
| "name MENU_A = ''MENU_A''"
| "name MENU_B = ''MENU_B''"
| "name OVERLAY_NEXT = ''OVERLAY_NEXT''"
| "name OSK = ''OSK''"

section \<open>The client\<close>

text \<open>
  The fields set by \<open>__init__\<close>. Durations and clock readings are Python floats; they
  are modelled as real numbers, which leaves rounding, infinities and NaN out.
\<close>

record RetroArchNCI =
  host :: string
  port :: int
  timeout :: real

text \<open>
  A duration handed to \<open>settimeout\<close> or \<open>time.sleep\<close> is first converted to a signed
  64-bit count of nanoseconds, rounded away from zero (\<open>_PyTime_FromSecondsObject\<close> with
  \<open>_PyTime_ROUND_TIMEOUT\<close>): OverflowError when it does not fit. A negative duration then
  raises ValueError.
\<close>

definition round_timeout :: "real \<Rightarrow> int" where
  "round_timeout x = (if 0 \<le> x then \<lceil>x\<rceil> else \<lfloor>x\<rfloor>)"

definition PyTime_FromSeconds :: "real \<Rightarrow> exn + int" where
  "PyTime_FromSeconds secs =
     (let d = round_timeout (secs * 10 ^ 9)
      in if - (2 ^ 63) \<le> d \<and> d < 2 ^ 63 then Inr d else Inl OverflowError)"

definition settimeout :: "real \<Rightarrow> exn option" where
  "settimeout secs =
     (case PyTime_FromSeconds secs of
        Inl e \<Rightarrow> Some e
      | Inr ns \<Rightarrow> if ns < 0 then Some ValueError else None)"

definition sleep :: "real \<Rightarrow> exn option" where
  "sleep secs =
     (case PyTime_FromSeconds secs of
        Inl e \<Rightarrow> Some e
      | Inr ns \<Rightarrow> if ns < 0 then Some ValueError else None)"

text \<open>
  What the outside world does during one call of \<open>_send\<close>: whether creating the socket
  raises, whether \<open>sendto\<close> raises for the datagram and the address it is given, what
  \<open>recvfrom\<close> does after that datagram was sent (an exception, the timeout among them, or
  the bytes of the datagram that arrived), and whether closing the socket raises.
\<close>

record net =
  socket_raises :: "exn option"
  sendto_raises :: "string \<Rightarrow> string \<Rightarrow> int \<Rightarrow> exn option"
  recvfrom_result :: "string \<Rightarrow> exn + string"
  close_raises :: "exn option"

text \<open>
  The calls made on the socket, in order; \<open>Sendto data h p\<close> is the call
  \<open>sock.sendto(data, (h, p))\<close>. \<open>sent\<close> keeps the datagrams handed to \<open>sendto\<close>.
\<close>

datatype event = Socket | Settimeout real | Sendto string string int | Recvfrom nat | Close

fun sent :: "event list \<Rightarrow> (string \<times> string \<times> int) list" where
  "sent [] = []"
| "sent (Sendto d h p # es) = (d, h, p) # sent es"
| "sent (Socket # es) = sent es"
| "sent (Settimeout t # es) = sent es"
| "sent (Recvfrom n # es) = sent es"
| "sent (Close # es) = sent es"

definition emitted :: "'a \<times> event list \<Rightarrow> (string \<times> string \<times> int) list" where
  "emitted run = sent (snd run)"

text \<open>
  The body of the \<open>try\<close> block of \<open>_send\<close>: its outcome (\<open>Inl\<close> is an exception raised
  inside it) and the calls it made on the socket.
\<close>

definition send_try ::
  "RetroArchNCI \<Rightarrow> net \<Rightarrow> string \<Rightarrow> bool \<Rightarrow> (exn + string option) \<times> event list" where
  "send_try self w msg expect_response =
     (case encode_ascii msg of
        Inl e \<Rightarrow> (Inl e, [])
      | Inr bytes \<Rightarrow>
          (case sendto_raises w bytes (host self) (port self) of
             Some e \<Rightarrow> (Inl e, [Sendto bytes (host self) (port self)])
           | None \<Rightarrow>
               if \<not> expect_response then (Inr None, [Sendto bytes (host self) (port self)])
               else (case recvfrom_result w bytes of
                       Inl e \<Rightarrow> (Inl e, [Sendto bytes (host self) (port self), Recvfrom 4096])
                     | Inr data \<Rightarrow>
                         (Inr (Some (strip (decode_ascii_replace (take 4096 data)))),
                          [Sendto bytes (host self) (port self), Recvfrom 4096]))))"

text \<open>
  \<open>_send\<close>, with the calls it made on the socket. The socket is created and its timeout
  set before the \<open>try\<close> block, so an exception of either call reaches the caller
  (\<open>Inl\<close>). Both handlers of the \<open>try\<close> block return \<open>None\<close>. The \<open>finally\<close> clause
  closes the socket, and an exception of \<open>close\<close> takes the place of the result.
  \<open>send\<close> is what \<open>_send\<close> returns or raises.
\<close>

definition send_run ::
  "RetroArchNCI \<Rightarrow> net \<Rightarrow> string \<Rightarrow> bool \<Rightarrow> (exn + string option) \<times> event list" where
  "send_run self w msg expect_response =
     (case socket_raises w of
        Some e \<Rightarrow> (Inl e, [])
      | None \<Rightarrow>
          (case settimeout (timeout self) of
             Some e \<Rightarrow> (Inl e, [Socket, Settimeout (timeout self)])
           | None \<Rightarrow>
               (case send_try self w msg expect_response of
                  (r, calls) \<Rightarrow>
                    (let events = [Socket, Settimeout (timeout self)] @ calls @ [Close]
                     in case close_raises w of
                          Some e \<Rightarrow> (Inl e, events)
                        | None \<Rightarrow>
                            (case r of
                               Inl e \<Rightarrow> (if e = TimeoutError then Inr None else Inr None, events)
                             | Inr resp \<Rightarrow> (Inr resp, events))))))"

definition send :: "RetroArchNCI \<Rightarrow> net \<Rightarrow> string \<Rightarrow> bool \<Rightarrow> exn + string option" where
  "send self w msg expect_response = fst (send_run self w msg expect_response)"

text \<open>
  The positional arguments the callers pass: text and integers. \<open>str\<close> is \<open>str()\<close>, which
  raises for an integer of too many digits; \<open>str_all\<close> is \<open>map(str, args)\<close> as \<open>join\<close>
  consumes it, stopping at the first exception.
\<close>

datatype pyval = PyStr string | PyInt int

fun str :: "pyval \<Rightarrow> exn + string" where
  "str (PyStr s) = Inr s"
| "str (PyInt i) = str_int i"

fun str_all :: "pyval list \<Rightarrow> exn + string list" where
  "str_all [] = Inr []"
| "str_all (a # as) =
     (case str a of
        Inl e \<Rightarrow> Inl e
      | Inr t \<Rightarrow> (case str_all as of Inl e \<Rightarrow> Inl e | Inr ts \<Rightarrow> Inr (t # ts)))"

text \<open>
  \<open>cmd\<close>: the local \<open>full\<close> is the message handed to \<open>_send\<close>; building it raises when
  \<open>str\<close> of an argument does.
\<close>

definition cmd_full :: "NCICommand \<Rightarrow> pyval list \<Rightarrow> exn + string" where
  "cmd_full command args =
     (let cmd_name = name command
      in if args \<noteq> []
         then (case str_all args of
                 Inl e \<Rightarrow> Inl e
               | Inr ts \<Rightarrow> Inr ((cmd_name @ '' '') @ join '' '' ts))
         else Inr cmd_name)"

definition cmd_run ::
  "RetroArchNCI \<Rightarrow> net \<Rightarrow> NCICommand \<Rightarrow> pyval list \<Rightarrow> bool
     \<Rightarrow> (exn + string option) \<times> event list" where
  "cmd_run self w command args expect_response =
     (case cmd_full command args of
        Inl e \<Rightarrow> (Inl e, [])
      | Inr full \<Rightarrow> send_run self w full expect_response)"

definition cmd ::
  "RetroArchNCI \<Rightarrow> net \<Rightarrow> NCICommand \<Rightarrow> pyval list \<Rightarrow> bool \<Rightarrow> exn + string option" where
  "cmd self w command args expect_response = fst (cmd_run self w command args expect_response)"

text \<open>
  \<open>send_nci_command\<close>: a member of the enumeration goes to \<open>cmd\<close>; any other value is
  taken by its text, and the local \<open>msg\<close> is the message handed to \<open>_send\<close>.
\<close>

datatype cmd_or_str = Command NCICommand | Other pyval

definition send_nci_command_msg :: "pyval \<Rightarrow> pyval list \<Rightarrow> exn + string" where
  "send_nci_command_msg v args =
     (case str v of
        Inl e \<Rightarrow> Inl e
      | Inr msg \<Rightarrow>
          if args \<noteq> []
          then (case str_all args of
                  Inl e \<Rightarrow> Inl e
                | Inr ts \<Rightarrow> Inr (msg @ ('' '' @ join '' '' ts)))
          else Inr msg)"

fun send_nci_command_run ::
  "RetroArchNCI \<Rightarrow> net \<Rightarrow> cmd_or_str \<Rightarrow> pyval list \<Rightarrow> bool
     \<Rightarrow> (exn + string option) \<times> event list" where
  "send_nci_command_run self w (Command c) args expect_response =
     cmd_run self w c args expect_response"
| "send_nci_command_run self w (Other v) args expect_response =
     (case send_nci_command_msg v args of
        Inl e \<Rightarrow> (Inl e, [])
      | Inr msg \<Rightarrow> send_run self w msg expect_response)"

definition send_nci_command ::
  "RetroArchNCI \<Rightarrow> net \<Rightarrow> cmd_or_str \<Rightarrow> pyval list \<Rightarrow> bool \<Rightarrow> exn + string option" where
  "send_nci_command self w cmd_or_str args expect_response =
     fst (send_nci_command_run self w cmd_or_str args expect_response)"

text \<open>
  \<open>wait_for_ready\<close>. The environment gives the successive readings of \<open>time.time()\<close>
  (\<open>clock\<close>, the first one is \<open>start\<close>) and what the network does at each poll. The result
  is \<open>None\<close> when the readings or the polls given are used up while the loop is still
  running. An exception of the poll or of \<open>time.sleep\<close> leaves the loop.
\<close>

fun wait_loop ::
  "RetroArchNCI \<Rightarrow> real \<Rightarrow> real \<Rightarrow> real \<Rightarrow> real list \<Rightarrow> net list \<Rightarrow> (exn + bool) option" where
  "wait_loop self start timeout_sec poll_interval [] ws = None"
| "wait_loop self start timeout_sec poll_interval (t # ts) ws =
     (if t - start < timeout_sec then
        (case ws of
           [] \<Rightarrow> None
         | w # ws' \<Rightarrow>
             (case send_nci_command self w (Command VERSION) [] True of
                Inl e \<Rightarrow> Some (Inl e)
              | Inr None \<Rightarrow>
                  (case sleep poll_interval of
                     Some e \<Rightarrow> Some (Inl e)
                   | None \<Rightarrow> wait_loop self start timeout_sec poll_interval ts ws')
              | Inr (Some resp) \<Rightarrow> Some (Inr True)))
      else Some (Inr False))"

definition wait_for_ready ::
  "RetroArchNCI \<Rightarrow> real list \<Rightarrow> net list \<Rightarrow> real \<Rightarrow> real \<Rightarrow> (exn + bool) option" where
  "wait_for_ready self clock ws timeout_sec poll_interval =
     (case clock of
        [] \<Rightarrow> None
      | start # ts \<Rightarrow> wait_loop self start timeout_sec poll_interval ts ws)"

text \<open>
  \<open>read_core_memory\<close>. The loop over \<open>enumerate(byte_parts)\<close>: \<open>i\<close> is the index, \<open>val\<close>
  the value assembled so far; an exception of \<open>int(b, 16)\<close> ends it.
\<close>

fun assemble :: "nat \<Rightarrow> int \<Rightarrow> string list \<Rightarrow> exn + int" where
  "assemble i val [] = Inr val"
| "assemble i val (b # bs) =
     (case int_base16 b of
        Inl e \<Rightarrow> Inl e
      | Inr v \<Rightarrow> assemble (Suc i) (val OR push_bit (8 * i) v) bs)"

text \<open>The part of \<open>read_core_memory\<close> after \<open>_send\<close> has returned \<open>resp\<close>.\<close>

definition read_core_memory_resp :: "string option \<Rightarrow> exn + int option" where
  "read_core_memory_resp resp =
     (case resp of
        None \<Rightarrow> Inr None
      | Some r \<Rightarrow>
          (let parts = split r
           in if length parts < 3 then Inr None
              else (let byte_parts = drop 2 parts
                    in if length byte_parts = 1 \<and> hd byte_parts = ''-1'' then Inr None
                       else (case assemble 0 0 byte_parts of
                               Inr val \<Rightarrow> Inr (Some val)
                             | Inl e \<Rightarrow> if e = ValueError then Inr None else Inl e))))"

text \<open>
  The local \<open>cmd\<close> of \<open>read_core_memory\<close>; formatting \<open>size\<close> in decimal raises when it
  has too many digits.
\<close>

definition read_core_memory_cmd :: "int \<Rightarrow> int \<Rightarrow> exn + string" where
  "read_core_memory_cmd address sz =
     (case str_int sz of
        Inl e \<Rightarrow> Inl e
      | Inr s \<Rightarrow> Inr (''READ_CORE_MEMORY '' @ format_X address @ '' '' @ s))"

definition read_core_memory :: "RetroArchNCI \<Rightarrow> net \<Rightarrow> int \<Rightarrow> int \<Rightarrow> exn + int option" where
  "read_core_memory self w address sz =
     (case read_core_memory_cmd address sz of
        Inl e \<Rightarrow> Inl e
      | Inr m \<Rightarrow>
          (case send self w m True of
             Inl e \<Rightarrow> Inl e
           | Inr resp \<Rightarrow> read_core_memory_resp resp))"

text \<open>\<open>write_core_memory\<close>: the local \<open>cmd\<close> is the message handed to \<open>_send\<close>.\<close>

definition write_core_memory_cmd :: "int \<Rightarrow> int list \<Rightarrow> string" where
  "write_core_memory_cmd address bytes_list =
     (let hex_bytes = join '' '' (map format_02X bytes_list)
      in ''WRITE_CORE_MEMORY '' @ format_X address @ '' '' @ hex_bytes)"

definition write_core_memory_run ::
  "RetroArchNCI \<Rightarrow> net \<Rightarrow> int \<Rightarrow> int list \<Rightarrow> (exn + string option) \<times> event list" where
  "write_core_memory_run self w address bytes_list =
     send_run self w (write_core_memory_cmd address bytes_list) True"

definition write_core_memory ::
  "RetroArchNCI \<Rightarrow> net \<Rightarrow> int \<Rightarrow> int list \<Rightarrow> exn + string option" where
  "write_core_memory self w address bytes_list =
     fst (write_core_memory_run self w address bytes_list)"

section \<open>Reference notions\<close>

text \<open>
  The little-endian assembly in the words of the specification: the value at index \<open>i\<close>
  contributes \<open>vs ! i << (8 * i)\<close>, and the contributions are combined with bitwise or.
\<close>

definition little_endian_spec :: "int list \<Rightarrow> int" where
  "little_endian_spec vs = foldr (\<lambda>i acc. push_bit (8 * i) (vs ! i) OR acc) [0..<length vs] 0"

text \<open>The same assembly by recursion over the list, starting at index \<open>i\<close>.\<close>

primrec le_rec :: "nat \<Rightarrow> int list \<Rightarrow> int" where
  "le_rec i [] = 0"
| "le_rec i (v # vs) = push_bit (8 * i) v OR le_rec (Suc i) vs"

text \<open>
  A client built with the defaults of \<open>__init__\<close>, and a network on which the socket
  calls succeed and the datagram \<open>data\<close> arrives.
\<close>

definition default_client :: RetroArchNCI where
  "default_client = \<lparr>host = ''127.0.0.1'', port = 55355, timeout = 1\<rparr>"

definition reply :: "string \<Rightarrow> net" where
  "reply data =
     \<lparr>socket_raises = None, sendto_raises = (\<lambda>d h p. None), recvfrom_result = (\<lambda>d. Inr data),
      close_raises = None\<rparr>"

text \<open>
  A hexadecimal digit of either case, uppercase hexadecimal text, and the value of
  hexadecimal text read digit by digit from the left; \<open>token\<close> is a piece of text that
  \<open>split\<close> leaves whole: not empty and free of whitespace.
\<close>

definition hex_digit :: "char \<Rightarrow> bool" where
  "hex_digit c = (PyLong_DigitValue c < 16)"

definition upper_hex_char :: "char \<Rightarrow> bool" where
  "upper_hex_char c = (c \<in> set ''0123456789ABCDEF'')"

definition upper_hex :: "string \<Rightarrow> bool" where
  "upper_hex s = (s \<noteq> [] \<and> list_all upper_hex_char s)"

definition hex_value :: "string \<Rightarrow> nat" where
  "hex_value s = foldl (\<lambda>a c. a * 16 + PyLong_DigitValue c) 0 s"

definition token :: "string \<Rightarrow> bool" where
  "token t = (t \<noteq> [] \<and> list_all (\<lambda>c. \<not> isspace c) t)"

text \<open>A network on which the socket calls succeed and no datagram arrives in time.\<close>

definition silent :: net where
  "silent =
     \<lparr>socket_raises = None, sendto_raises = (\<lambda>d h p. None),
      recvfrom_result = (\<lambda>d. Inl TimeoutError), close_raises = None\<rparr>"

section \<open>Reading memory\<close>

lemma read_core_memory_after_send:
  "read_core_memory_cmd address sz = Inr m \<Longrightarrow> send self w m True = Inr resp \<Longrightarrow>
   read_core_memory self w address sz = read_core_memory_resp resp"
  by (simp add: read_core_memory_def)

lemma int_base16_error: "int_base16 s = Inl e \<Longrightarrow> e = ValueError"
  by (auto simp: int_base16_def Let_def split: prod.splits option.splits if_splits)

lemma assemble_error: "assemble i val bs = Inl e \<Longrightarrow> e = ValueError"
  by (induction bs arbitrary: i val) (auto split: sum.splits dest: int_base16_error)

lemma assemble_invalid: "b \<in> set bs \<Longrightarrow> isl (int_base16 b) \<Longrightarrow> isl (assemble i val bs)"
  by (induction bs arbitrary: i val) (auto split: sum.splits)

lemma assemble_valid:
  "map int_base16 bs = map Inr vs \<Longrightarrow> assemble i val bs = Inr (val OR le_rec i vs)"
proof (induction bs arbitrary: i val vs)
  case Nil
  then show ?case by simp
next
  case (Cons b bs)
  then obtain v vs' where vs: "vs = v # vs'" and b: "int_base16 b = Inr v"
    and rest: "map int_base16 bs = map Inr vs'"
    by (cases vs) auto
  show ?case
    using Cons.IH [OF rest] b by (simp add: vs or.assoc)
qed

lemma foldr_le_rec:
  "foldr (\<lambda>j acc. push_bit (8 * (i + j)) (vs ! j) OR acc) [0..<length vs] 0 = le_rec i vs"
proof (induction vs arbitrary: i)
  case Nil
  then show ?case by simp
next
  case (Cons v vs)
  have "[0..<length (v # vs)] = 0 # map Suc [0..<length vs]"
    by (simp add: upt_conv_Cons map_Suc_upt del: upt_Suc)
  then show ?case
    using Cons.IH [of "Suc i"] by (simp add: foldr_map comp_def add_ac del: upt_Suc)
qed

lemma little_endian_spec_rec: "little_endian_spec vs = le_rec 0 vs"
  using foldr_le_rec [of 0 vs] by (simp add: little_endian_spec_def)

lemma le_rec_negative: "le_rec i vs < 0 \<longleftrightarrow> (\<exists>v\<in>set vs. v < 0)"
  by (induction vs arbitrary: i) auto

lemma ex_less_Suc_shift: "(\<exists>j<Suc n. P j) \<longleftrightarrow> P 0 \<or> (\<exists>j<n. P (Suc j))"
  by (metis less_Suc_eq_0_disj)

lemma le_rec_bit:
  "bit (le_rec i vs) n \<longleftrightarrow> (\<exists>j<length vs. bit (push_bit (8 * (i + j)) (vs ! j)) n)"
proof (induction vs arbitrary: i)
  case Nil
  then show ?case by simp
next
  case (Cons v vs)
  have "(\<exists>j<length (v # vs). bit (push_bit (8 * (i + j)) ((v # vs) ! j)) n) \<longleftrightarrow>
        bit (push_bit (8 * i) v) n \<or> (\<exists>j<length vs. bit (push_bit (8 * (Suc i + j)) (vs ! j)) n)"
    by (simp add: ex_less_Suc_shift add_ac)
  then show ?case
    using Cons.IH [of "Suc i"] by (simp add: bit_or_iff add_ac)
qed



lemma le_rec_bytes:
  "\<forall>v\<in>set vs. 0 \<le> v \<and> v < 256 \<Longrightarrow> le_rec i vs = (\<Sum>j<length vs. vs ! j * 256 ^ (i + j))"
proof (induction vs arbitrary: i)
  case Nil
  then show ?case by simp
next
  case (Cons v vs)
  have v: "0 \<le> v" "v < 2 ^ 8" using Cons.prems by auto
  have disj: "\<not> bit (push_bit (8 * i) v) n \<or> \<not> bit (le_rec (Suc i) vs) n" for n
  proof (cases "n < 8 * i + 8")
    case True
    then have "\<not> bit (le_rec (Suc i) vs) n"
      by (auto simp: le_rec_bit bit_push_bit_iff)
    then show ?thesis ..
  next
    case False
    have "take_bit 8 v = v"
      using v by (simp add: take_bit_int_eq_self)
    then have "bit v (n - 8 * i) \<longleftrightarrow> bit (take_bit 8 v) (n - 8 * i)"
      by simp
    also have "\<dots> \<longleftrightarrow> False"
    proof -
      have "\<not> n - 8 * i < 8" using False by arith
      then show ?thesis by (simp only: bit_take_bit_iff simp_thms)
    qed
    finally have "\<not> bit v (n - 8 * i)" by simp
    then show ?thesis by (simp add: bit_push_bit_iff)
  qed
  have "le_rec i (v # vs) = push_bit (8 * i) v + le_rec (Suc i) vs"
    using disjunctive_add [of "push_bit (8 * i) v" "le_rec (Suc i) vs"] disj by simp
  also have "\<dots> = v * 256 ^ i + (\<Sum>j<length vs. vs ! j * 256 ^ (Suc i + j))"
    using Cons.IH [of "Suc i"] Cons.prems by (simp add: push_bit_eq_mult power_mult)
  also have "\<dots> = (\<Sum>j<length (v # vs). (v # vs) ! j * 256 ^ (i + j))"
    by (simp add: sum.lessThan_Suc_shift del: sum.lessThan_Suc)
  finally show ?case .
qed

lemma little_endian_spec_bit:
  "bit (little_endian_spec vs) n \<longleftrightarrow> (\<exists>j<length vs. bit (push_bit (8 * j) (vs ! j)) n)"
  using le_rec_bit [of 0 vs n] by (simp add: little_endian_spec_rec)

lemma little_endian_spec_bytes:
  "\<forall>v\<in>set vs. 0 \<le> v \<and> v < 256 \<Longrightarrow> little_endian_spec vs = (\<Sum>j<length vs. vs ! j * 256 ^ j)"
  using le_rec_bytes [of vs 0] by (simp add: little_endian_spec_rec)

lemma read_core_memory_resp_total: "\<exists>r. read_core_memory_resp resp = Inr r"
  by (auto simp: read_core_memory_resp_def Let_def split: option.splits sum.splits
      dest: assemble_error)

lemma read_core_memory_resp_malformed:
  assumes "length (split s) < 3 \<or> (\<exists>b\<in>set (drop 2 (split s)). isl (int_base16 b))"
  shows "read_core_memory_resp (Some s) = Inr None"
proof (cases "length (split s) < 3")
  case True
  then show ?thesis by (simp add: read_core_memory_resp_def)
next
  case False
  with assms obtain b where b: "b \<in> set (drop 2 (split s))" "isl (int_base16 b)"
    by auto
  have "isl (assemble 0 0 (drop 2 (split s)))"
    using b by (rule assemble_invalid)
  then obtain e where e: "assemble 0 0 (drop 2 (split s)) = Inl e"
    by (cases "assemble 0 0 (drop 2 (split s))") auto
  then have "e = ValueError" by (rule assemble_error)
  with e False show ?thesis by (simp add: read_core_memory_resp_def Let_def)
qed

lemma read_core_memory_resp_valid:
  assumes "split resp = cmd_name # addr_str # byte_parts"
    and "byte_parts \<noteq> []" and "byte_parts \<noteq> [''-1'']"
    and "map int_base16 byte_parts = map Inr vs"
  shows "read_core_memory_resp (Some resp) = Inr (Some (little_endian_spec vs))"
proof -
  have "\<not> (length byte_parts = 1 \<and> hd byte_parts = ''-1'')"
    using assms(3) by (cases byte_parts) auto
  moreover have "assemble 0 0 byte_parts = Inr (little_endian_spec vs)"
    using assemble_valid [OF assms(4), of 0 0] by (simp add: little_endian_spec_rec)
  ultimately show ?thesis
    using assms(1,2) by (simp add: read_core_memory_resp_def Let_def)
qed

text \<open>
  Claim C1. When \<open>_send\<close> returns a response that splits into the command name, the
  address and at least one byte token, the byte tokens are not the lone failure marker
  and every byte token is accepted by \<open>int(b, 16)\<close>, \<open>read_core_memory\<close> returns the
  little-endian assembly of the parsed values, token \<open>i\<close> contributing its value shifted
  left by \<open>8 * i\<close>. The response \<open>READ_CORE_MEMORY 100 01 02 03\<close> decodes to \<open>0x030201\<close>.
\<close>

theorem read_core_memory_little_endian:
  assumes "read_core_memory_cmd address sz = Inr m"
    and "send self w m True = Inr (Some resp)"
    and "split resp = cmd_name # addr_str # byte_parts"
    and "byte_parts \<noteq> []" and "byte_parts \<noteq> [''-1'']"
    and "map int_base16 byte_parts = map Inr vs"
  shows "read_core_memory self w address sz = Inr (Some (little_endian_spec vs)) \<and>
         read_core_memory_resp (Some ''READ_CORE_MEMORY 100 01 02 03'') = Inr (Some 0x030201)"
proof
  show "read_core_memory self w address sz = Inr (Some (little_endian_spec vs))"
    using read_core_memory_resp_valid [OF assms(3-6)] read_core_memory_after_send [OF assms(1,2)]
    by simp
  show "read_core_memory_resp (Some ''READ_CORE_MEMORY 100 01 02 03'') = Inr (Some 0x030201)"
    by code_simp
qed

theorem read_core_memory_little_endian_witness:
  "read_core_memory_cmd 0x100 3 = Inr ''READ_CORE_MEMORY 100 3'' \<and>
   send default_client (reply ''READ_CORE_MEMORY 100 01 02 03'') ''READ_CORE_MEMORY 100 3'' True
     = Inr (Some ''READ_CORE_MEMORY 100 01 02 03'') \<and>
   split ''READ_CORE_MEMORY 100 01 02 03'' = [''READ_CORE_MEMORY'', ''100'', ''01'', ''02'', ''03''] \<and>
   map int_base16 [''01'', ''02'', ''03''] = map Inr [1, 2, 3] \<and>
   little_endian_spec [1, 2, 3] = 0x030201 \<and>
   read_core_memory default_client (reply ''READ_CORE_MEMORY 100 01 02 03'') 0x100 3
     = Inr (Some 0x030201)"
proof -
  have c: "read_core_memory_cmd 0x100 3 = Inr ''READ_CORE_MEMORY 100 3''"
    by code_simp
  have s: "send default_client (reply ''READ_CORE_MEMORY 100 01 02 03'')
             ''READ_CORE_MEMORY 100 3'' True = Inr (Some ''READ_CORE_MEMORY 100 01 02 03'')"
    by code_simp
  have p: "split ''READ_CORE_MEMORY 100 01 02 03'' =
             ''READ_CORE_MEMORY'' # ''100'' # [''01'', ''02'', ''03'']"
    by code_simp
  have n: "[''01'', ''02'', ''03''] \<noteq> []" and m: "[''01'', ''02'', ''03''] \<noteq> [''-1'']"
    by simp_all
  have v: "map int_base16 [''01'', ''02'', ''03''] = map Inr [1, 2, 3]"
    by code_simp
  have l: "little_endian_spec [1, 2, 3] = 0x030201"
    by code_simp
  show ?thesis
    using read_core_memory_little_endian [OF c s p n m v] c s p v l by simp
qed

text \<open>
  Claim C2. When the response splits into exactly three tokens and the third, the only
  byte token, is \<open>-1\<close>, \<open>read_core_memory\<close> returns \<open>None\<close>, not the integer \<open>-1\<close>.
\<close>

theorem read_core_memory_failure_marker:
  assumes "read_core_memory_cmd address sz = Inr m"
    and "send self w m True = Inr (Some resp)"
    and "split resp = [cmd_name, addr_str, ''-1'']"
  shows "read_core_memory self w address sz = Inr None"
  using assms(3) read_core_memory_after_send [OF assms(1,2)]
  by (simp add: read_core_memory_resp_def)

theorem read_core_memory_failure_marker_witness:
  "read_core_memory_cmd 0x100 1 = Inr ''READ_CORE_MEMORY 100 1'' \<and>
   send default_client (reply ''READ_CORE_MEMORY 100 -1'') ''READ_CORE_MEMORY 100 1'' True
     = Inr (Some ''READ_CORE_MEMORY 100 -1'') \<and>
   split ''READ_CORE_MEMORY 100 -1'' = [''READ_CORE_MEMORY'', ''100'', ''-1''] \<and>
   read_core_memory default_client (reply ''READ_CORE_MEMORY 100 -1'') 0x100 1 = Inr None"
proof -
  have c: "read_core_memory_cmd 0x100 1 = Inr ''READ_CORE_MEMORY 100 1''"
    by code_simp
  have s: "send default_client (reply ''READ_CORE_MEMORY 100 -1'') ''READ_CORE_MEMORY 100 1'' True
             = Inr (Some ''READ_CORE_MEMORY 100 -1'')"
    by code_simp
  have p: "split ''READ_CORE_MEMORY 100 -1'' = [''READ_CORE_MEMORY'', ''100'', ''-1'']"
    by code_simp
  show ?thesis
    using read_core_memory_failure_marker [OF c s p] c s p by simp
qed

text \<open>
  Claim C3. Whatever \<open>_send\<close> returns, absent or any text, \<open>read_core_memory\<close> raises
  nothing and returns a value; an absent response, a response of fewer than three tokens
  and a response with a byte token that \<open>int(b, 16)\<close> rejects all give \<open>None\<close>.
\<close>

theorem read_core_memory_never_raises:
  assumes "read_core_memory_cmd address sz = Inr m"
    and "send self w m True = Inr resp"
  shows "(\<exists>r. read_core_memory self w address sz = Inr r) \<and>
         (resp = None \<longrightarrow> read_core_memory self w address sz = Inr None) \<and>
         (\<forall>s. resp = Some s \<and>
               (length (split s) < 3 \<or> (\<exists>b\<in>set (drop 2 (split s)). isl (int_base16 b)))
               \<longrightarrow> read_core_memory self w address sz = Inr None)"
proof -
  have eq: "read_core_memory self w address sz = read_core_memory_resp resp"
    using assms by (rule read_core_memory_after_send)
  have "\<exists>r. read_core_memory self w address sz = Inr r"
    unfolding eq by (rule read_core_memory_resp_total)
  moreover have "resp = None \<longrightarrow> read_core_memory self w address sz = Inr None"
    unfolding eq by (simp add: read_core_memory_resp_def)
  moreover have "\<forall>s. resp = Some s \<and>
               (length (split s) < 3 \<or> (\<exists>b\<in>set (drop 2 (split s)). isl (int_base16 b)))
               \<longrightarrow> read_core_memory self w address sz = Inr None"
    unfolding eq using read_core_memory_resp_malformed by blast
  ultimately show ?thesis by blast
qed

theorem read_core_memory_never_raises_witness:
  "read_core_memory_cmd 0x100 1 = Inr ''READ_CORE_MEMORY 100 1'' \<and>
   send default_client (reply ''READ_CORE_MEMORY 100 zz'') ''READ_CORE_MEMORY 100 1'' True
     = Inr (Some ''READ_CORE_MEMORY 100 zz'') \<and>
   (\<exists>b\<in>set (drop 2 (split ''READ_CORE_MEMORY 100 zz'')). isl (int_base16 b)) \<and>
   read_core_memory default_client (reply ''READ_CORE_MEMORY 100 zz'') 0x100 1 = Inr None \<and>
   send default_client (reply ''READ_CORE_MEMORY'') ''READ_CORE_MEMORY 100 1'' True
     = Inr (Some ''READ_CORE_MEMORY'') \<and>
   length (split ''READ_CORE_MEMORY'') < 3 \<and>
   read_core_memory default_client (reply ''READ_CORE_MEMORY'') 0x100 1 = Inr None \<and>
   send default_client silent ''READ_CORE_MEMORY 100 1'' True = Inr None \<and>
   read_core_memory default_client silent 0x100 1 = Inr None"
proof -
  have c: "read_core_memory_cmd 0x100 1 = Inr ''READ_CORE_MEMORY 100 1''"
    by code_simp
  have s1: "send default_client (reply ''READ_CORE_MEMORY 100 zz'') ''READ_CORE_MEMORY 100 1'' True
              = Inr (Some ''READ_CORE_MEMORY 100 zz'')"
    by code_simp
  have b1: "\<exists>b\<in>set (drop 2 (split ''READ_CORE_MEMORY 100 zz'')). isl (int_base16 b)"
    by code_simp
  have s2: "send default_client (reply ''READ_CORE_MEMORY'') ''READ_CORE_MEMORY 100 1'' True
              = Inr (Some ''READ_CORE_MEMORY'')"
    by code_simp
  have b2: "length (split ''READ_CORE_MEMORY'') < 3"
    by code_simp
  have s3: "send default_client silent ''READ_CORE_MEMORY 100 1'' True = Inr None"
    by code_simp
  show ?thesis
    using read_core_memory_never_raises [OF c s1] read_core_memory_never_raises [OF c s2]
      read_core_memory_never_raises [OF c s3] c s1 b1 s2 b2 s3
    by blast
qed

text \<open>
  Claim C9, as stated, fails: the response \<open>READ_CORE_MEMORY 100 -1 zz\<close> has two byte
  tokens, one of them \<open>-1\<close>, and \<open>read_core_memory\<close> returns \<open>None\<close>, because \<open>zz\<close> is
  not hexadecimal.
\<close>

theorem read_core_memory_marker_among_bytes_counterexample:
  "read_core_memory_cmd 0x100 2 = Inr ''READ_CORE_MEMORY 100 2'' \<and>
   send default_client (reply ''READ_CORE_MEMORY 100 -1 zz'') ''READ_CORE_MEMORY 100 2'' True
     = Inr (Some ''READ_CORE_MEMORY 100 -1 zz'') \<and>
   drop 2 (split ''READ_CORE_MEMORY 100 -1 zz'') = [''-1'', ''zz''] \<and>
   read_core_memory default_client (reply ''READ_CORE_MEMORY 100 -1 zz'') 0x100 2 = Inr None"
  by code_simp

lemma int_base16_minus_one: "int_base16 ''-1'' = Inr (- 1)"
  by code_simp

text \<open>
  Claim C9, amended. The failure marker is only looked for when there is exactly one byte
  token: when the response has two or more byte tokens, \<open>-1\<close> among them, and every byte
  token is accepted by \<open>int(b, 16)\<close>, the token \<open>-1\<close> parses to the integer \<open>-1\<close> and
  \<open>read_core_memory\<close> returns the assembled integer, which is negative, not \<open>None\<close>.
  The response \<open>READ_CORE_MEMORY 100 -1 00\<close> gives \<open>-1\<close>.
\<close>

theorem read_core_memory_marker_among_bytes:
  assumes "read_core_memory_cmd address sz = Inr m"
    and "send self w m True = Inr (Some resp)"
    and "split resp = cmd_name # addr_str # byte_parts"
    and "2 \<le> length byte_parts" and "''-1'' \<in> set byte_parts"
    and "map int_base16 byte_parts = map Inr vs"
  shows "int_base16 ''-1'' = Inr (- 1) \<and>
         read_core_memory self w address sz = Inr (Some (little_endian_spec vs)) \<and>
         little_endian_spec vs < 0 \<and>
         read_core_memory_resp (Some ''READ_CORE_MEMORY 100 -1 00'') = Inr (Some (- 1))"
proof -
  have ne: "byte_parts \<noteq> []" and nm: "byte_parts \<noteq> [''-1'']"
    using assms(4) by auto
  have r: "read_core_memory self w address sz = Inr (Some (little_endian_spec vs))"
    using read_core_memory_resp_valid [OF assms(3) ne nm assms(6)]
      read_core_memory_after_send [OF assms(1,2)] by simp
  have "Inr (- 1) \<in> set (map int_base16 byte_parts)"
    using assms(5) int_base16_minus_one by force
  then have "(Inr (- 1) :: exn + int) \<in> set (map Inr vs)"
    by (simp only: assms(6))
  then have "- 1 \<in> set vs" by auto
  then have neg: "little_endian_spec vs < 0"
    unfolding little_endian_spec_rec le_rec_negative by force
  have "read_core_memory_resp (Some ''READ_CORE_MEMORY 100 -1 00'') = Inr (Some (- 1))"
    by code_simp
  with r neg int_base16_minus_one show ?thesis by simp
qed

theorem read_core_memory_marker_among_bytes_witness:
  "read_core_memory_cmd 0x100 2 = Inr ''READ_CORE_MEMORY 100 2'' \<and>
   send default_client (reply ''READ_CORE_MEMORY 100 -1 00'') ''READ_CORE_MEMORY 100 2'' True
     = Inr (Some ''READ_CORE_MEMORY 100 -1 00'') \<and>
   split ''READ_CORE_MEMORY 100 -1 00'' = [''READ_CORE_MEMORY'', ''100'', ''-1'', ''00''] \<and>
   map int_base16 [''-1'', ''00''] = map Inr [- 1, 0] \<and>
   little_endian_spec [- 1, 0] = - 1 \<and>
   read_core_memory default_client (reply ''READ_CORE_MEMORY 100 -1 00'') 0x100 2
     = Inr (Some (- 1))"
proof -
  have c: "read_core_memory_cmd 0x100 2 = Inr ''READ_CORE_MEMORY 100 2''"
    by code_simp
  have s: "send default_client (reply ''READ_CORE_MEMORY 100 -1 00'') ''READ_CORE_MEMORY 100 2'' True
             = Inr (Some ''READ_CORE_MEMORY 100 -1 00'')"
    by code_simp
  have p: "split ''READ_CORE_MEMORY 100 -1 00'' = ''READ_CORE_MEMORY'' # ''100'' # [''-1'', ''00'']"
    by code_simp
  have n: "2 \<le> length [''-1'', ''00'']" and m: "''-1'' \<in> set [''-1'', ''00'']"
    by simp_all
  have v: "map int_base16 [''-1'', ''00''] = map Inr [- 1, 0]"
    by code_simp
  have l: "little_endian_spec [- 1, 0] = - 1"
    by code_simp
  show ?thesis
    using read_core_memory_marker_among_bytes [OF c s p n m v] c s p v l by simp
qed

section \<open>Hexadecimal text\<close>

lemma digit_char_props:
  assumes "d < 16"
  shows "upper_hex_char (digit_char d)" and "PyLong_DigitValue (digit_char d) = d"
proof -
  have "d = 0 \<or> d = 1 \<or> d = 2 \<or> d = 3 \<or> d = 4 \<or> d = 5 \<or> d = 6 \<or> d = 7 \<or>
        d = 8 \<or> d = 9 \<or> d = 10 \<or> d = 11 \<or> d = 12 \<or> d = 13 \<or> d = 14 \<or> d = 15"
    using assms by arith
  then show "upper_hex_char (digit_char d)" and "PyLong_DigitValue (digit_char d) = d"
    by (auto simp: digit_char_def PyLong_DigitValue_def upper_hex_char_def)
qed

lemma upper_hex_char_props:
  assumes "upper_hex_char c"
  shows "PyLong_DigitValue c < 16" and "c \<noteq> CHR ''_''" and "\<not> Py_ISSPACE c" and "\<not> isspace c"
    and "c \<noteq> CHR ''+''" and "c \<noteq> CHR ''-''" and "c \<noteq> CHR ''x''" and "c \<noteq> CHR ''X''"
    and "is_ascii c"
  using assms
  by (auto simp: upper_hex_char_def PyLong_DigitValue_def Py_ISSPACE_def isspace_def is_ascii_def)


lemma hex_digits_upper: "list_all upper_hex_char (hex_digits n)"
proof (induction n rule: hex_digits.induct)
  case (1 n)
  show ?case
  proof (cases "n < 16")
    case True
    then show ?thesis
      using digit_char_props(1) [of n] by (subst hex_digits.simps) simp
  next
    case False
    then show ?thesis
      using "1.IH" digit_char_props(1) [of "n mod 16"] by (subst hex_digits.simps) simp
  qed
qed

lemma hex_digits_nonempty: "hex_digits n \<noteq> []"
  by (subst hex_digits.simps) simp

lemma hex_value_snoc: "hex_value (s @ [c]) = hex_value s * 16 + PyLong_DigitValue c"
  by (simp add: hex_value_def)

lemma hex_value_hex_digits: "hex_value (hex_digits n) = n"
proof (induction n rule: hex_digits.induct)
  case (1 n)
  show ?case
  proof (cases "n < 16")
    case True
    then show ?thesis
      using digit_char_props(2) [of n] by (subst hex_digits.simps) (simp add: hex_value_def)
  next
    case False
    then show ?thesis
      using "1.IH" digit_char_props(2) [of "n mod 16"]
      by (subst hex_digits.simps) (simp add: hex_value_snoc)
  qed
qed

lemma hex_value_zeros: "hex_value (replicate k (CHR ''0'') @ s) = hex_value s"
proof -
  have "foldl (\<lambda>a c. a * 16 + PyLong_DigitValue c) 0 (replicate k (CHR ''0'')) = 0"
    by (induction k) (simp_all add: PyLong_DigitValue_def)
  then show ?thesis by (simp add: hex_value_def)
qed

lemma hex_digits_small: "n < 16 \<Longrightarrow> hex_digits n = [digit_char n]"
  by (subst hex_digits.simps) simp

lemma hex_digits_large:
  "\<not> n < 16 \<Longrightarrow> hex_digits n = hex_digits (n div 16) @ [digit_char (n mod 16)]"
  by (subst hex_digits.simps) simp

lemma length_hex_digits_byte: "n < 256 \<Longrightarrow> length (hex_digits n) = (if n < 16 then 1 else 2)"
proof (cases "n < 16")
  case True
  then show ?thesis by (simp add: hex_digits_small)
next
  case False
  assume "n < 256"
  then have "n div 16 < 16" by simp
  then show ?thesis using False by (simp add: hex_digits_large hex_digits_small)
qed

lemma scan_digits_upper:
  "list_all upper_hex_char ds \<Longrightarrow> prev \<noteq> CHR ''_'' \<Longrightarrow>
   scan_digits prev acc ds = Some (foldl (\<lambda>a c. a * 16 + PyLong_DigitValue c) acc ds, [])"
proof (induction ds arbitrary: prev acc)
  case Nil
  then show ?case by simp
next
  case (Cons c ds)
  then have c: "upper_hex_char c" by simp
  show ?case
    using Cons.IH [of c] Cons.prems upper_hex_char_props(1,2) [OF c] by simp
qed

lemma int_base16_upper_hex:
  assumes "upper_hex s"
  shows "int_base16 s = Inr (int (hex_value s))"
    and "int_base16 (CHR ''-'' # s) = Inr (- int (hex_value s))"
proof -
  from assms obtain c cs where s: "s = c # cs" and c: "upper_hex_char c"
    and all: "list_all upper_hex_char s"
    by (cases s) (auto simp: upper_hex_def)
  have sign: "skip_sign s = (False, s)"
    using upper_hex_char_props(5,6) [OF c] by (simp add: skip_sign_def s)
  have pre: "skip_prefix s = s"
  proof (cases cs)
    case Nil
    then show ?thesis by (simp add: skip_prefix_def s)
  next
    case (Cons x r)
    then have "upper_hex_char x" using all s by simp
    then show ?thesis
      using upper_hex_char_props(7,8) [of x] by (simp add: skip_prefix_def s Cons)
  qed
  have sp: "dropWhile Py_ISSPACE s = s"
    using upper_hex_char_props(3) [OF c] by (simp add: s)
  have hd: "hd s \<noteq> CHR ''_''"
    using upper_hex_char_props(2) [OF c] by (simp add: s)
  have scan: "scan_digits (CHR 0x00) 0 s = Some (hex_value s, [])"
    using scan_digits_upper [OF all, of "CHR 0x00" 0] by (simp add: hex_value_def)
  have ne: "[] \<noteq> s" by (simp add: s)
  show "int_base16 s = Inr (int (hex_value s))"
    by (simp add: int_base16_def sp sign pre hd scan ne)
  have "\<not> Py_ISSPACE (CHR ''-'')" by (simp add: Py_ISSPACE_def)
  then show "int_base16 (CHR ''-'' # s) = Inr (- int (hex_value s))"
    by (simp add: int_base16_def skip_sign_def pre hd scan ne)
qed

lemma int_base16_format_X: "int_base16 (format_X a) = Inr a"
proof -
  have "upper_hex (hex_digits n)" for n
    by (simp add: upper_hex_def hex_digits_upper hex_digits_nonempty)
  then show ?thesis
    by (simp add: format_X_def int_base16_upper_hex hex_value_hex_digits)
qed

lemma upper_hex_zero_pad: "upper_hex (zero_pad k (hex_digits n))"
proof -
  have "upper_hex_char (CHR ''0'')" by (simp add: upper_hex_char_def)
  then have "list_all upper_hex_char (replicate (k - length (hex_digits n)) (CHR ''0''))"
    by (simp add: list_all_iff)
  then show ?thesis
    using hex_digits_upper [of n] by (simp add: upper_hex_def zero_pad_def hex_digits_nonempty)
qed

lemma hex_value_zero_pad: "hex_value (zero_pad k (hex_digits n)) = n"
  by (simp only: zero_pad_def hex_value_zeros hex_value_hex_digits)

lemma int_base16_format_02X: "int_base16 (format_02X b) = Inr b"
proof (cases "b < 0")
  case True
  then show ?thesis
    using int_base16_upper_hex(2) [OF upper_hex_zero_pad, of 1 "nat (- b)"]
    by (simp add: format_02X_def hex_value_zero_pad)
next
  case False
  then show ?thesis
    using int_base16_upper_hex(1) [OF upper_hex_zero_pad, of 2 "nat b"]
    by (simp add: format_02X_def hex_value_zero_pad)
qed

lemma format_02X_byte:
  assumes "0 \<le> b" and "b \<le> 255"
  shows "length (format_02X b) = 2" and "upper_hex (format_02X b)"
proof -
  have "nat b < 256" using assms by simp
  then show "length (format_02X b) = 2"
    using assms by (simp add: format_02X_def zero_pad_def length_hex_digits_byte)
  show "upper_hex (format_02X b)"
    using assms by (simp add: format_02X_def upper_hex_zero_pad)
qed

lemma format_X_nonneg: "0 \<le> a \<Longrightarrow> upper_hex (format_X a)"
  by (simp add: format_X_def upper_hex_def hex_digits_upper hex_digits_nonempty)

text \<open>Text made of hexadecimal digits of either case is accepted by \<open>int_base16\<close>.\<close>

lemma hex_digit_chars: "hex_digit c \<longleftrightarrow> c \<in> set ''0123456789abcdefABCDEF''"
proof
  assume h: "hex_digit c"
  define n where "n = (of_char c :: nat)"
  have c: "c = char_of n" by (simp add: n_def)
  from h have "(48 \<le> n \<and> n \<le> 57) \<or> (97 \<le> n \<and> n \<le> 102) \<or> (65 \<le> n \<and> n \<le> 70)"
    unfolding hex_digit_def PyLong_DigitValue_def n_def [symmetric]
    by (auto simp: Let_def split: if_splits)
  then have "n = 48 \<or> n = 49 \<or> n = 50 \<or> n = 51 \<or> n = 52 \<or> n = 53 \<or> n = 54 \<or> n = 55 \<or>
    n = 56 \<or> n = 57 \<or> n = 97 \<or> n = 98 \<or> n = 99 \<or> n = 100 \<or> n = 101 \<or> n = 102 \<or>
    n = 65 \<or> n = 66 \<or> n = 67 \<or> n = 68 \<or> n = 69 \<or> n = 70"
    by arith
  then show "c \<in> set ''0123456789abcdefABCDEF''"
    unfolding c by (elim disjE) (simp_all add: char_of_def bit_0)
next
  assume "c \<in> set ''0123456789abcdefABCDEF''"
  then show "hex_digit c"
    by (auto simp: hex_digit_def PyLong_DigitValue_def)
qed

lemma hex_digit_props:
  assumes "hex_digit c"
  shows "c \<noteq> CHR ''_''" and "\<not> Py_ISSPACE c"
    and "c \<noteq> CHR ''+''" and "c \<noteq> CHR ''-''" and "c \<noteq> CHR ''x''" and "c \<noteq> CHR ''X''"
  using assms by (auto simp: hex_digit_def PyLong_DigitValue_def Py_ISSPACE_def)

lemma scan_digits_hex:
  "list_all hex_digit ds \<Longrightarrow> prev \<noteq> CHR ''_'' \<Longrightarrow>
   scan_digits prev acc ds = Some (foldl (\<lambda>a c. a * 16 + PyLong_DigitValue c) acc ds, [])"
proof (induction ds arbitrary: prev acc)
  case Nil
  then show ?case by simp
next
  case (Cons c ds)
  then have c: "hex_digit c" by simp
  show ?case
    using Cons.IH [of c] Cons.prems hex_digit_props(1) [OF c] c by (simp add: hex_digit_def)
qed

lemma int_base16_hex_digits:
  assumes "s \<noteq> []" and "list_all hex_digit s"
  shows "int_base16 s = Inr (int (hex_value s))"
    and "int_base16 (CHR ''-'' # s) = Inr (- int (hex_value s))"
proof -
  from assms obtain c cs where s: "s = c # cs" and c: "hex_digit c"
    by (cases s) auto
  have sign: "skip_sign s = (False, s)"
    using hex_digit_props(3,4) [OF c] by (simp add: skip_sign_def s)
  have pre: "skip_prefix s = s"
  proof (cases cs)
    case Nil
    then show ?thesis by (simp add: skip_prefix_def s)
  next
    case (Cons x r)
    then have "hex_digit x" using assms(2) s by simp
    then show ?thesis
      using hex_digit_props(5,6) [of x] by (simp add: skip_prefix_def s Cons)
  qed
  have sp: "dropWhile Py_ISSPACE s = s"
    using hex_digit_props(2) [OF c] by (simp add: s)
  have hd: "hd s \<noteq> CHR ''_''"
    using hex_digit_props(1) [OF c] by (simp add: s)
  have scan: "scan_digits (CHR 0x00) 0 s = Some (hex_value s, [])"
    using scan_digits_hex [OF assms(2), of "CHR 0x00" 0] by (simp add: hex_value_def)
  have ne: "[] \<noteq> s" by (simp add: s)
  show "int_base16 s = Inr (int (hex_value s))"
    by (simp add: int_base16_def sp sign pre hd scan ne)
  have "\<not> Py_ISSPACE (CHR ''-'')" by (simp add: Py_ISSPACE_def)
  then show "int_base16 (CHR ''-'' # s) = Inr (- int (hex_value s))"
    by (simp add: int_base16_def skip_sign_def pre hd scan ne)
qed

lemma upper_hex_char_hex_digit: "upper_hex_char c \<Longrightarrow> hex_digit c"
  by (auto simp: upper_hex_char_def hex_digit_def PyLong_DigitValue_def)

section \<open>The exchange over the socket\<close>

lemma settimeout_None_iff: "settimeout s = None \<longleftrightarrow> 0 \<le> s \<and> s * 10 ^ 9 \<le> 2 ^ 63 - 1"
proof (cases "0 \<le> s")
  case True
  then have "0 \<le> \<lceil>s * 10 ^ 9\<rceil>" by simp
  moreover have "\<lceil>s * 10 ^ 9\<rceil> < 2 ^ 63 \<longleftrightarrow> s * 10 ^ 9 \<le> 2 ^ 63 - 1"
  proof -
    have "\<lceil>s * 10 ^ 9\<rceil> < 2 ^ 63 \<longleftrightarrow> \<lceil>s * 10 ^ 9\<rceil> \<le> 2 ^ 63 - 1" by arith
    also have "\<dots> \<longleftrightarrow> s * 10 ^ 9 \<le> of_int (2 ^ 63 - 1)" by (rule ceiling_le_iff)
    finally show ?thesis by simp
  qed
  ultimately show ?thesis
    using True by (auto simp: settimeout_def PyTime_FromSeconds_def round_timeout_def Let_def)
next
  case False
  then have "s * 10 ^ 9 < 0" by (simp add: mult_less_0_iff)
  then have "\<lfloor>s * 10 ^ 9\<rfloor> < 0" by simp
  then show ?thesis
    using False by (auto simp: settimeout_def PyTime_FromSeconds_def round_timeout_def Let_def)
qed

lemma sleep_None_iff: "sleep s = None \<longleftrightarrow> 0 \<le> s \<and> s * 10 ^ 9 \<le> 2 ^ 63 - 1"
  using settimeout_None_iff [of s] by (simp add: sleep_def settimeout_def)

lemma sent_append: "sent (xs @ ys) = sent xs @ sent ys"
  by (induction xs rule: sent.induct) simp_all

lemma emitted_send_run:
  "emitted (send_run self w msg expect_response) =
     (if socket_raises w = None \<and> settimeout (timeout self) = None \<and> list_all is_ascii msg
      then [(msg, host self, port self)] else [])"
  by (auto simp: emitted_def send_run_def send_try_def encode_ascii_def sent_append Let_def
      split: option.splits sum.splits)

lemma send_returns:
  "socket_raises w = None \<Longrightarrow> settimeout (timeout self) = None \<Longrightarrow> close_raises w = None \<Longrightarrow>
   \<exists>r. send self w msg expect_response = Inr r"
  by (auto simp: send_def send_run_def Let_def split: sum.splits prod.splits)

lemma send_success:
  assumes "socket_raises w = None" and "settimeout (timeout self) = None"
    and "list_all is_ascii msg" and "sendto_raises w msg (host self) (port self) = None"
    and "recvfrom_result w msg = Inr data" and "close_raises w = None"
  shows "send self w msg True = Inr (Some (strip (decode_ascii_replace (take 4096 data))))"
  using assms by (simp add: send_def send_run_def send_try_def encode_ascii_def Let_def)

lemma send_absent:
  assumes "socket_raises w = None" and "settimeout (timeout self) = None"
    and "close_raises w = None"
    and "\<not> list_all is_ascii msg \<or> sendto_raises w msg (host self) (port self) \<noteq> None \<or>
         isl (recvfrom_result w msg)"
  shows "send self w msg True = Inr None"
  using assms
  by (auto simp: send_def send_run_def send_try_def encode_ascii_def Let_def
      split: sum.splits option.splits)

lemma send_no_wait:
  assumes "socket_raises w = None" and "settimeout (timeout self) = None"
    and "close_raises w = None"
  shows "send self w msg False = Inr None"
  using assms
  by (auto simp: send_def send_run_def send_try_def encode_ascii_def Let_def
      split: sum.splits option.splits)

text \<open>
  Claim C6 says that \<open>_send\<close> never raises. The code creates the socket and sets its
  timeout before the \<open>try\<close> block: with a negative timeout \<open>settimeout\<close> raises
  ValueError, and when the socket cannot be created \<open>socket.socket\<close> raises OSError; both
  reach the caller of \<open>_send\<close>.
\<close>

theorem send_raises_before_try:
  "send (default_client\<lparr>timeout := - 1\<rparr>) (reply ''1.19.1'') ''VERSION'' True = Inl ValueError \<and>
   send default_client ((reply ''1.19.1'')\<lparr>socket_raises := Some OSError\<rparr>) ''VERSION'' True
     = Inl OSError"
  by code_simp

text \<open>
  Two more exceptions that reach the caller: the OverflowError of a timeout that does not
  fit 64-bit nanoseconds, and an exception of \<open>close\<close> in the \<open>finally\<close> clause.
\<close>

lemma send_raises_large_timeout:
  "send (default_client\<lparr>timeout := 10 ^ 10\<rparr>) (reply ''1.19.1'') ''VERSION'' True = Inl OverflowError"
  by code_simp

lemma send_raises_on_close:
  "send default_client ((reply ''1.19.1'')\<lparr>close_raises := Some OSError\<rparr>) ''VERSION'' True
     = Inl OSError"
  by code_simp

section \<open>Command messages\<close>

lemma split_from_token:
  "list_all (\<lambda>c. \<not> isspace c) t \<Longrightarrow> split_from cur (t @ rest) = split_from (cur @ t) rest"
  by (induction t arbitrary: cur) simp_all

lemma split_from_spaces:
  "list_all isspace tr \<Longrightarrow> split_from cur tr = (if cur = [] then [] else [cur])"
  by (induction tr arbitrary: cur) simp_all

lemma isspace_space: "isspace (CHR '' '')"
  by (simp add: isspace_def)

lemma join_Cons: "ts \<noteq> [] \<Longrightarrow> join sep (t # ts) = t @ sep @ join sep ts"
  by (cases ts) simp_all

lemma split_join_trailing:
  "list_all token ts \<Longrightarrow> list_all isspace tr \<Longrightarrow> split (join '' '' ts @ tr) = ts"
proof (induction ts)
  case Nil
  then show ?case by (simp add: split_def split_from_spaces)
next
  case (Cons t ts)
  then have t: "t \<noteq> []" "list_all (\<lambda>c. \<not> isspace c) t"
    by (simp_all add: token_def)
  show ?case
  proof (cases "ts = []")
    case True
    then show ?thesis
      using t Cons.prems(2) by (simp add: split_def split_from_token split_from_spaces)
  next
    case False
    have "split (join '' '' (t # ts) @ tr) = split_from [] (t @ CHR '' '' # (join '' '' ts @ tr))"
      using False by (simp add: split_def join_Cons)
    also have "\<dots> = t # split_from [] (join '' '' ts @ tr)"
      using t by (simp add: split_from_token isspace_space)
    also have "\<dots> = t # ts"
      using Cons.IH Cons.prems by (simp add: split_def)
    finally show ?thesis .
  qed
qed

lemma split_join: "list_all token ts \<Longrightarrow> split (join '' '' ts) = ts"
  using split_join_trailing [of ts "[]"] by simp

lemma join_concat: "join '' '' (t # ts) = t @ concat (map (\<lambda>x. CHR '' '' # x) ts)"
  by (induction ts arbitrary: t) (simp_all add: join_Cons)


lemma newline_join:
  "CHR 0x0A \<in> set (join '' '' (t # ts)) \<longleftrightarrow> (\<exists>x\<in>set (t # ts). CHR 0x0A \<in> set x)"
  by (simp add: join_concat)

lemma name_token: "token (name command)"
  by (cases command) (simp_all add: token_def isspace_def)

lemma name_no_newline: "CHR 0x0A \<notin> set (name command)"
  by (cases command) simp_all

lemma name_no_space: "CHR '' '' \<notin> set (name command)"
  by (cases command) simp_all

lemma name_ascii: "list_all is_ascii (name command)"
  by (cases command) (simp_all add: is_ascii_def)

lemma upper_hex_token: "upper_hex s \<Longrightarrow> token s"
  using upper_hex_char_props(4) by (auto simp: upper_hex_def token_def list_all_iff)

lemma token_format_X: "token (format_X a)"
proof -
  have "token (hex_digits n)" for n
    by (rule upper_hex_token) (simp add: upper_hex_def hex_digits_upper hex_digits_nonempty)
  moreover have "\<not> isspace (CHR ''-'')" by (simp add: isspace_def)
  ultimately show ?thesis by (simp add: format_X_def token_def)
qed

lemma str_all_Cons:
  "str_all (a # as) = Inr texts \<Longrightarrow> \<exists>t ts. texts = t # ts \<and> str a = Inr t \<and> str_all as = Inr ts"
  by (auto split: sum.splits)

lemma cmd_full_join:
  "str_all args = Inr texts \<Longrightarrow> cmd_full command args = Inr (join '' '' (name command # texts))"
proof (cases args)
  case Nil
  assume "str_all args = Inr texts"
  then show ?thesis using Nil by (auto simp: cmd_full_def)
next
  case (Cons a as)
  assume s: "str_all args = Inr texts"
  then have "texts \<noteq> []" using Cons str_all_Cons by blast
  then show ?thesis using s Cons by (simp add: cmd_full_def join_Cons)
qed

lemma cmd_full_Inr:
  "cmd_full command args = Inr m \<Longrightarrow>
   \<exists>texts. str_all args = Inr texts \<and> m = join '' '' (name command # texts)"
proof (cases "str_all args")
  case (Inl e)
  assume "cmd_full command args = Inr m"
  then show ?thesis using Inl by (cases args) (simp_all add: cmd_full_def)
next
  case (Inr texts)
  assume "cmd_full command args = Inr m"
  then show ?thesis using cmd_full_join [OF Inr, of command] Inr by simp
qed

lemma send_nci_command_msg_join:
  "str v = Inr t \<Longrightarrow> str_all args = Inr texts \<Longrightarrow>
   send_nci_command_msg v args = Inr (join '' '' (t # texts))"
proof (cases args)
  case Nil
  assume "str v = Inr t" "str_all args = Inr texts"
  then show ?thesis using Nil by (auto simp: send_nci_command_msg_def)
next
  case (Cons a as)
  assume s: "str v = Inr t" "str_all args = Inr texts"
  then have "texts \<noteq> []" using Cons str_all_Cons by blast
  then show ?thesis using s Cons by (simp add: send_nci_command_msg_def join_Cons)
qed

lemma send_nci_command_msg_Inr:
  "send_nci_command_msg v args = Inr m \<Longrightarrow>
   \<exists>t texts. str v = Inr t \<and> str_all args = Inr texts \<and> m = join '' '' (t # texts)"
proof -
  assume m: "send_nci_command_msg v args = Inr m"
  then obtain t where t: "str v = Inr t"
    by (cases "str v") (simp_all add: send_nci_command_msg_def)
  show ?thesis
  proof (cases "str_all args")
    case (Inl e)
    then show ?thesis using m t by (cases args) (simp_all add: send_nci_command_msg_def)
  next
    case (Inr texts)
    then show ?thesis using m t send_nci_command_msg_join [OF t Inr] by simp
  qed
qed

lemma ascii_join:
  "list_all (list_all is_ascii) ts \<Longrightarrow> list_all is_ascii (join '' '' ts)"
  by (induction "'' ''" ts rule: join.induct) (simp_all add: is_ascii_def)

lemma emitted_cmd_run:
  assumes "socket_raises w = None" and "settimeout (timeout self) = None"
    and "str_all args = Inr texts" and "list_all (list_all is_ascii) texts"
  shows "emitted (cmd_run self w command args expect_response) =
        [(name command @ concat (map (\<lambda>t. CHR '' '' # t) texts), host self, port self)]"
proof -
  have "list_all is_ascii (join '' '' (name command # texts))"
    using assms(4) by (intro ascii_join) (simp add: name_ascii)
  then show ?thesis
    using assms cmd_full_join [OF assms(3), of command]
    by (simp add: cmd_run_def emitted_send_run join_concat)
qed

text \<open>
  Claim C5. Every datagram that \<open>cmd\<close> hands to \<open>sendto\<close> is the member's name followed
  by the \<open>str()\<close> text of each argument, each preceded by exactly one space, and goes to
  the client's host and port. Once the socket is created and its timeout set, \<open>cmd\<close>
  hands over exactly this one datagram whenever the texts exist and are ASCII; without
  arguments it is the name alone, and a name is not empty and holds no space.
\<close>

theorem cmd_message:
  "(\<forall>d\<in>set (emitted (cmd_run self w command args expect_response)).
      \<exists>texts. str_all args = Inr texts \<and>
        d = (name command @ concat (map (\<lambda>t. CHR '' '' # t) texts), host self, port self)) \<and>
   (socket_raises w = None \<and> settimeout (timeout self) = None \<and>
    str_all args = Inr texts \<and> list_all (list_all is_ascii) texts \<longrightarrow>
      emitted (cmd_run self w command args expect_response) =
        [(name command @ concat (map (\<lambda>t. CHR '' '' # t) texts), host self, port self)]) \<and>
   (socket_raises w = None \<and> settimeout (timeout self) = None \<longrightarrow>
      emitted (cmd_run self w command [] expect_response) = [(name command, host self, port self)]) \<and>
   (str_all args = Inr texts \<longrightarrow>
      cmd_run self w command args expect_response =
        send_run self w (name command @ concat (map (\<lambda>t. CHR '' '' # t) texts)) expect_response) \<and>
   name command \<noteq> [] \<and> CHR '' '' \<notin> set (name command)"
proof -
  have a: "\<forall>d\<in>set (emitted (cmd_run self w command args expect_response)).
      \<exists>texts. str_all args = Inr texts \<and>
        d = (name command @ concat (map (\<lambda>t. CHR '' '' # t) texts), host self, port self)"
  proof (cases "cmd_full command args")
    case (Inl e)
    then show ?thesis by (simp add: cmd_run_def emitted_def)
  next
    case (Inr m)
    then obtain texts where "str_all args = Inr texts" "m = join '' '' (name command # texts)"
      using cmd_full_Inr by blast
    then show ?thesis
      using Inr by (simp add: cmd_run_def emitted_send_run join_concat)
  qed
  have b: "emitted (cmd_run self w command args expect_response) =
        [(name command @ concat (map (\<lambda>t. CHR '' '' # t) texts), host self, port self)]"
    if "socket_raises w = None" "settimeout (timeout self) = None"
      "str_all args = Inr texts" "list_all (list_all is_ascii) texts"
    using that by (rule emitted_cmd_run)
  have c: "emitted (cmd_run self w command [] expect_response) = [(name command, host self, port self)]"
    if "socket_raises w = None" "settimeout (timeout self) = None"
    using emitted_cmd_run [OF that, of "[]" "[]" command expect_response] by simp
  have "name command \<noteq> []"
    using name_token [of command] by (simp add: token_def)
  moreover have "cmd_run self w command args expect_response =
        send_run self w (name command @ concat (map (\<lambda>t. CHR '' '' # t) texts)) expect_response"
    if "str_all args = Inr texts"
    using cmd_full_join [OF that, of command] by (simp add: cmd_run_def join_concat)
  ultimately show ?thesis
    using a b c name_no_space by blast
qed

theorem cmd_message_witness:
  "socket_raises (reply ''ok'') = None \<and> settimeout (timeout default_client) = None \<and>
   str_all [PyStr ''Hello'', PyInt 2000] = Inr [''Hello'', ''2000''] \<and>
   list_all (list_all is_ascii) [''Hello'', ''2000''] \<and>
   emitted (cmd_run default_client (reply ''ok'') SHOW_MESG [PyStr ''Hello'', PyInt 2000] True) =
     [(name SHOW_MESG @ concat (map (\<lambda>t. CHR '' '' # t) [''Hello'', ''2000'']),
       host default_client, port default_client)] \<and>
   (name SHOW_MESG @ concat (map (\<lambda>t. CHR '' '' # t) [''Hello'', ''2000'']),
       host default_client, port default_client) = (''SHOW_MESG Hello 2000'', ''127.0.0.1'', 55355) \<and>
   emitted (cmd_run default_client (reply ''ok'') SHOW_MESG [] True) =
     [(name SHOW_MESG, host default_client, port default_client)]"
proof -
  have s: "socket_raises (reply ''ok'') = None" and t: "settimeout (timeout default_client) = None"
    by code_simp+
  have x: "str_all [PyStr ''Hello'', PyInt 2000] = Inr [''Hello'', ''2000'']"
    by code_simp
  have a: "list_all (list_all is_ascii) [''Hello'', ''2000'']"
    by code_simp
  have v: "(name SHOW_MESG @ concat (map (\<lambda>t. CHR '' '' # t) [''Hello'', ''2000'']),
       host default_client, port default_client) = (''SHOW_MESG Hello 2000'', ''127.0.0.1'', 55355)"
    by code_simp
  show ?thesis
    using cmd_message [of default_client "reply ''ok''" SHOW_MESG "[PyStr ''Hello'', PyInt 2000]"
        True "[''Hello'', ''2000'']"] s t x a v
    by blast
qed

text \<open>
  Claim C8, as stated, fails: an argument or a raw name that holds a newline puts it
  into the message and into the datagram sent, and an empty argument leaves two spaces in
  a row.
\<close>

theorem command_message_invariant_counterexample:
  "cmd_full SHOW_MESG [PyStr [CHR ''a'', CHR 0x0A, CHR ''b'']] =
     Inr (''SHOW_MESG '' @ [CHR ''a'', CHR 0x0A, CHR ''b'']) \<and>
   emitted (cmd_run default_client (reply ''ok'') SHOW_MESG [PyStr [CHR ''a'', CHR 0x0A, CHR ''b'']]
     True) = [(''SHOW_MESG '' @ [CHR ''a'', CHR 0x0A, CHR ''b''], ''127.0.0.1'', 55355)] \<and>
   send_nci_command_msg (PyStr [CHR ''A'', CHR 0x0A]) [] = Inr [CHR ''A'', CHR 0x0A] \<and>
   cmd_full SHOW_MESG [PyStr [], PyStr ''b''] = Inr ''SHOW_MESG  b''"
  by code_simp

text \<open>
  Claim C8, amended. Every message built by \<open>cmd\<close> or by \<open>send_nci_command\<close> is the name
  and the \<open>str()\<close> texts of the arguments joined by single spaces, and it is the message
  that goes to \<open>_send\<close> and, when anything is sent, into the datagram. It holds a newline
  exactly when the raw name or an argument text holds one; the name of a member of the
  enumeration never does. When the name and the argument texts are not empty and free of
  whitespace, splitting the message gives back exactly the name and the argument texts.
\<close>

theorem command_message_invariant:
  assumes "cmd_full command args = Inr m" and "send_nci_command_msg v args' = Inr m'"
  shows "(\<exists>texts. str_all args = Inr texts \<and> m = join '' '' (name command # texts) \<and>
            (CHR 0x0A \<in> set m \<longleftrightarrow> (\<exists>t\<in>set texts. CHR 0x0A \<in> set t)) \<and>
            (list_all token texts \<longrightarrow> split m = name command # texts)) \<and>
         (\<exists>t texts. str v = Inr t \<and> str_all args' = Inr texts \<and> m' = join '' '' (t # texts) \<and>
            (CHR 0x0A \<in> set m' \<longleftrightarrow> (\<exists>u\<in>set (t # texts). CHR 0x0A \<in> set u)) \<and>
            (list_all token (t # texts) \<longrightarrow> split m' = t # texts)) \<and>
         cmd_run self w command args expect_response = send_run self w m expect_response \<and>
         send_nci_command_run self w (Command command) args expect_response =
           send_run self w m expect_response \<and>
         send_nci_command_run self w (Other v) args' expect_response =
           send_run self w m' expect_response \<and>
         emitted (send_nci_command_run self w (Command command) args expect_response) =
           (if socket_raises w = None \<and> settimeout (timeout self) = None \<and> list_all is_ascii m
            then [(m, host self, port self)] else []) \<and>
         emitted (send_nci_command_run self w (Other v) args' expect_response) =
           (if socket_raises w = None \<and> settimeout (timeout self) = None \<and> list_all is_ascii m'
            then [(m', host self, port self)] else [])"
proof -
  obtain texts where x: "str_all args = Inr texts" "m = join '' '' (name command # texts)"
    using cmd_full_Inr [OF assms(1)] by blast
  have x1: "CHR 0x0A \<in> set m \<longleftrightarrow> (\<exists>t\<in>set texts. CHR 0x0A \<in> set t)"
    using name_no_newline [of command] by (simp add: x(2) newline_join)
  have x2: "list_all token texts \<longrightarrow> split m = name command # texts"
    using split_join [of "name command # texts"] by (simp add: x(2) name_token)
  obtain t texts' where y: "str v = Inr t" "str_all args' = Inr texts'"
      "m' = join '' '' (t # texts')"
    using send_nci_command_msg_Inr [OF assms(2)] by blast
  have y1: "CHR 0x0A \<in> set m' \<longleftrightarrow> (\<exists>u\<in>set (t # texts'). CHR 0x0A \<in> set u)"
    by (simp only: y(3) newline_join)
  have y2: "list_all token (t # texts') \<longrightarrow> split m' = t # texts'"
    using split_join [of "t # texts'"] by (simp add: y(3))
  have r: "cmd_run self w command args expect_response = send_run self w m expect_response"
    "send_nci_command_run self w (Command command) args expect_response =
       send_run self w m expect_response"
    "send_nci_command_run self w (Other v) args' expect_response =
       send_run self w m' expect_response"
    using assms by (simp_all add: cmd_run_def)
  show ?thesis
    using x x1 x2 y y1 y2 r by (simp only: emitted_send_run) blast
qed

theorem command_message_invariant_witness:
  "cmd_full SHOW_MESG [PyStr ''Hello'', PyInt 2000] = Inr ''SHOW_MESG Hello 2000'' \<and>
   send_nci_command_msg (PyStr ''SHOW_MESG'') [PyStr ''Hello'', PyInt 2000]
     = Inr ''SHOW_MESG Hello 2000'' \<and>
   cmd_run default_client (reply ''ok'') SHOW_MESG [PyStr ''Hello'', PyInt 2000] True =
     send_run default_client (reply ''ok'') ''SHOW_MESG Hello 2000'' True \<and>
   send_nci_command_run default_client (reply ''ok'') (Other (PyStr ''SHOW_MESG''))
     [PyStr ''Hello'', PyInt 2000] True =
     send_run default_client (reply ''ok'') ''SHOW_MESG Hello 2000'' True \<and>
   split ''SHOW_MESG Hello 2000'' = [''SHOW_MESG'', ''Hello'', ''2000'']"
proof -
  have a: "cmd_full SHOW_MESG [PyStr ''Hello'', PyInt 2000] = Inr ''SHOW_MESG Hello 2000''"
    by code_simp
  have b: "send_nci_command_msg (PyStr ''SHOW_MESG'') [PyStr ''Hello'', PyInt 2000]
             = Inr ''SHOW_MESG Hello 2000''"
    by code_simp
  have c: "split ''SHOW_MESG Hello 2000'' = [''SHOW_MESG'', ''Hello'', ''2000'']"
    by code_simp
  show ?thesis
    using command_message_invariant [OF a b, where self = default_client
        and w = "reply ''ok''" and expect_response = True] a b c
    by blast
qed

section \<open>Writing memory\<close>

lemma write_core_memory_cmd_join:
  "bytes_list \<noteq> [] \<Longrightarrow>
   write_core_memory_cmd address bytes_list =
     join '' '' (''WRITE_CORE_MEMORY'' # format_X address # map format_02X bytes_list)"
  by (simp add: write_core_memory_cmd_def join_Cons)

lemma ascii_hex_digits: "list_all is_ascii (hex_digits n)"
  using hex_digits_upper [of n] upper_hex_char_props(9) by (auto simp: list_all_iff)

lemma ascii_format_X: "list_all is_ascii (format_X a)"
  using ascii_hex_digits by (simp add: format_X_def is_ascii_def)

lemma ascii_format_02X: "list_all is_ascii (format_02X b)"
proof -
  have "list_all is_ascii (replicate k (CHR ''0''))" for k
    by (simp add: list_all_iff is_ascii_def)
  then have "list_all is_ascii (zero_pad k (hex_digits n))" for k n
    using ascii_hex_digits by (simp add: zero_pad_def)
  then show ?thesis by (simp add: format_02X_def is_ascii_def)
qed

lemma ascii_write_core_memory_cmd: "list_all is_ascii (write_core_memory_cmd address bytes_list)"
proof -
  have "list_all (list_all is_ascii) (map format_02X bytes_list)"
    by (induction bytes_list) (simp_all add: ascii_format_02X)
  then have "list_all is_ascii (join '' '' (map format_02X bytes_list))"
    by (rule ascii_join)
  moreover have "list_all is_ascii ''WRITE_CORE_MEMORY ''"
    by (simp add: is_ascii_def)
  ultimately show ?thesis
    using ascii_format_X [of address] by (simp add: write_core_memory_cmd_def is_ascii_def)
qed

lemma emitted_write_core_memory:
  "emitted (write_core_memory_run self w address bytes_list) =
     (if socket_raises w = None \<and> settimeout (timeout self) = None
      then [(write_core_memory_cmd address bytes_list, host self, port self)] else [])"
  by (simp add: write_core_memory_run_def emitted_send_run ascii_write_core_memory_cmd)

text \<open>
  Claim C4. For a non-negative address and a non-empty list of values from 0 to 255,
  every datagram that \<open>write_core_memory\<close> hands to \<open>sendto\<close> is the text
  \<open>WRITE_CORE_MEMORY\<close>, the address and the bytes, separated by single spaces, and once the
  socket is created and its timeout set it hands over exactly this one datagram. The
  address is uppercase hexadecimal digits only (so without \<open>0x\<close>) and reads back as the
  address; every byte is exactly two uppercase hexadecimal digits and reads back as the
  byte. Address \<open>0x10\<close> with bytes \<open>[1, 255]\<close> gives \<open>WRITE_CORE_MEMORY 10 01 FF\<close>.
\<close>

theorem write_core_memory_message:
  assumes "0 \<le> address" and "bytes_list \<noteq> []" and "\<forall>b\<in>set bytes_list. 0 \<le> b \<and> b \<le> 255"
  shows "(\<forall>d\<in>set (emitted (write_core_memory_run self w address bytes_list)).
            d = (''WRITE_CORE_MEMORY '' @ format_X address @
                 concat (map (\<lambda>b. CHR '' '' # format_02X b) bytes_list), host self, port self)) \<and>
         (socket_raises w = None \<and> settimeout (timeout self) = None \<longrightarrow>
            emitted (write_core_memory_run self w address bytes_list) =
              [(''WRITE_CORE_MEMORY '' @ format_X address @
                concat (map (\<lambda>b. CHR '' '' # format_02X b) bytes_list), host self, port self)]) \<and>
         split (''WRITE_CORE_MEMORY '' @ format_X address @
                concat (map (\<lambda>b. CHR '' '' # format_02X b) bytes_list)) =
           ''WRITE_CORE_MEMORY'' # format_X address # map format_02X bytes_list \<and>
         upper_hex (format_X address) \<and> int_base16 (format_X address) = Inr address \<and>
         (\<forall>b\<in>set bytes_list. length (format_02X b) = 2 \<and> upper_hex (format_02X b) \<and>
                              int_base16 (format_02X b) = Inr b) \<and>
         emitted (write_core_memory_run default_client (reply ''ok'') 0x10 [1, 255]) =
           [(''WRITE_CORE_MEMORY 10 01 FF'', ''127.0.0.1'', 55355)]"
proof -
  have bytes: "\<forall>b\<in>set bytes_list. length (format_02X b) = 2 \<and> upper_hex (format_02X b) \<and>
                 int_base16 (format_02X b) = Inr b"
    using assms(3) by (simp add: format_02X_byte int_base16_format_02X)
  have msg: "write_core_memory_cmd address bytes_list =
           ''WRITE_CORE_MEMORY '' @ format_X address @
           concat (map (\<lambda>b. CHR '' '' # format_02X b) bytes_list)"
    using assms(2) by (cases bytes_list) (simp_all add: write_core_memory_cmd_def join_concat comp_def)
  have "list_all token (''WRITE_CORE_MEMORY'' # format_X address # map format_02X bytes_list)"
    using bytes by (simp add: token_format_X upper_hex_token list_all_iff)
      (simp add: token_def isspace_def)
  then have "split (write_core_memory_cmd address bytes_list) =
           ''WRITE_CORE_MEMORY'' # format_X address # map format_02X bytes_list"
    unfolding write_core_memory_cmd_join [OF assms(2)] by (rule split_join)
  then have toks: "split (''WRITE_CORE_MEMORY '' @ format_X address @
                concat (map (\<lambda>b. CHR '' '' # format_02X b) bytes_list)) =
           ''WRITE_CORE_MEMORY'' # format_X address # map format_02X bytes_list"
    by (simp only: msg)
  have ex: "emitted (write_core_memory_run default_client (reply ''ok'') 0x10 [1, 255]) =
           [(''WRITE_CORE_MEMORY 10 01 FF'', ''127.0.0.1'', 55355)]"
    by code_simp
  have em: "emitted (write_core_memory_run self w address bytes_list) =
     (if socket_raises w = None \<and> settimeout (timeout self) = None
      then [(''WRITE_CORE_MEMORY '' @ format_X address @
             concat (map (\<lambda>b. CHR '' '' # format_02X b) bytes_list), host self, port self)]
      else [])"
    by (simp only: emitted_write_core_memory msg)
  have a: "\<forall>d\<in>set (emitted (write_core_memory_run self w address bytes_list)).
            d = (''WRITE_CORE_MEMORY '' @ format_X address @
                 concat (map (\<lambda>b. CHR '' '' # format_02X b) bytes_list), host self, port self)"
    by (simp add: em)
  have b: "socket_raises w = None \<and> settimeout (timeout self) = None \<longrightarrow>
            emitted (write_core_memory_run self w address bytes_list) =
              [(''WRITE_CORE_MEMORY '' @ format_X address @
                concat (map (\<lambda>b. CHR '' '' # format_02X b) bytes_list), host self, port self)]"
    by (simp add: em)
  show ?thesis
    using a b toks bytes ex format_X_nonneg [OF assms(1)] int_base16_format_X [of address]
    by blast
qed

theorem write_core_memory_message_witness:
  "(0::int) \<le> 0x10 \<and> [1, 255] \<noteq> ([] :: int list) \<and>
   (0::int) \<le> 1 \<and> (1::int) \<le> 255 \<and> (0::int) \<le> 255 \<and> (255::int) \<le> 255 \<and>
   socket_raises (reply ''ok'') = None \<and> settimeout (timeout default_client) = None \<and>
   emitted (write_core_memory_run default_client (reply ''ok'') 0x10 [1, 255]) =
     [(''WRITE_CORE_MEMORY '' @ format_X 0x10 @
       concat (map (\<lambda>b. CHR '' '' # format_02X b) [1, 255]),
       host default_client, port default_client)] \<and>
   (''WRITE_CORE_MEMORY '' @ format_X 0x10 @ concat (map (\<lambda>b. CHR '' '' # format_02X b) [1, 255]),
       host default_client, port default_client) = (''WRITE_CORE_MEMORY 10 01 FF'', ''127.0.0.1'', 55355) \<and>
   ''WRITE_CORE_MEMORY'' # format_X 0x10 # map format_02X [1, 255] =
     [''WRITE_CORE_MEMORY'', ''10'', ''01'', ''FF'']"
proof -
  have a: "(0::int) \<le> 0x10" and n: "[1, 255] \<noteq> ([] :: int list)"
    and r: "\<forall>b\<in>set [1, 255 :: int]. 0 \<le> b \<and> b \<le> 255"
    and r': "(0::int) \<le> 1 \<and> (1::int) \<le> 255 \<and> (0::int) \<le> 255 \<and> (255::int) \<le> 255"
    by simp_all
  have s: "socket_raises (reply ''ok'') = None" and t: "settimeout (timeout default_client) = None"
    by code_simp+
  have v: "(''WRITE_CORE_MEMORY '' @ format_X 0x10 @
             concat (map (\<lambda>b. CHR '' '' # format_02X b) [1, 255]),
       host default_client, port default_client) = (''WRITE_CORE_MEMORY 10 01 FF'', ''127.0.0.1'', 55355)"
    by code_simp
  have f: "''WRITE_CORE_MEMORY'' # format_X 0x10 # map format_02X [1, 255] =
     [''WRITE_CORE_MEMORY'', ''10'', ''01'', ''FF'']"
    by code_simp
  show ?thesis
    using write_core_memory_message [OF a n r, of default_client "reply ''ok''"] a n r' s t v f
    by blast
qed

text \<open>
  Claim C10. For every address, every datagram that \<open>write_core_memory\<close> with an empty
  list hands to \<open>sendto\<close> is the text \<open>WRITE_CORE_MEMORY\<close>, a space, the address in
  uppercase hexadecimal and a trailing space, and once the socket is created and its
  timeout set it hands over exactly this one datagram: the empty list takes the same path
  as any other. The message has no byte token.
\<close>

theorem write_core_memory_empty:
  "(\<forall>d\<in>set (emitted (write_core_memory_run self w address [])).
      d = (''WRITE_CORE_MEMORY '' @ format_X address @ '' '', host self, port self)) \<and>
   (socket_raises w = None \<and> settimeout (timeout self) = None \<longrightarrow>
      emitted (write_core_memory_run self w address []) =
        [(''WRITE_CORE_MEMORY '' @ format_X address @ '' '', host self, port self)]) \<and>
   split (''WRITE_CORE_MEMORY '' @ format_X address @ '' '') =
     [''WRITE_CORE_MEMORY'', format_X address] \<and>
   int_base16 (format_X address) = Inr address \<and>
   (0 \<le> address \<longrightarrow> upper_hex (format_X address))"
proof -
  have msg: "write_core_memory_cmd address [] = ''WRITE_CORE_MEMORY '' @ format_X address @ '' ''"
    by (simp add: write_core_memory_cmd_def)
  have "list_all token [''WRITE_CORE_MEMORY'', format_X address]"
    by (simp add: token_format_X) (simp add: token_def isspace_def)
  then have "split (join '' '' [''WRITE_CORE_MEMORY'', format_X address] @ '' '') =
               [''WRITE_CORE_MEMORY'', format_X address]"
    by (rule split_join_trailing) (simp add: isspace_def)
  then have toks: "split (''WRITE_CORE_MEMORY '' @ format_X address @ '' '') =
     [''WRITE_CORE_MEMORY'', format_X address]"
    by simp
  have em: "emitted (write_core_memory_run self w address []) =
     (if socket_raises w = None \<and> settimeout (timeout self) = None
      then [(''WRITE_CORE_MEMORY '' @ format_X address @ '' '', host self, port self)] else [])"
    by (simp only: emitted_write_core_memory msg)
  have a: "\<forall>d\<in>set (emitted (write_core_memory_run self w address [])).
      d = (''WRITE_CORE_MEMORY '' @ format_X address @ '' '', host self, port self)"
    by (simp add: em)
  have b: "socket_raises w = None \<and> settimeout (timeout self) = None \<longrightarrow>
      emitted (write_core_memory_run self w address []) =
        [(''WRITE_CORE_MEMORY '' @ format_X address @ '' '', host self, port self)]"
    by (simp add: em)
  show ?thesis
    using a b toks int_base16_format_X [of address] format_X_nonneg [of address] by blast
qed

theorem write_core_memory_empty_witness:
  "socket_raises (reply ''ok'') = None \<and> settimeout (timeout default_client) = None \<and>
   emitted (write_core_memory_run default_client (reply ''ok'') 0x10 []) =
     [(''WRITE_CORE_MEMORY '' @ format_X 0x10 @ '' '', host default_client, port default_client)] \<and>
   (''WRITE_CORE_MEMORY '' @ format_X 0x10 @ '' '', host default_client, port default_client) =
     (''WRITE_CORE_MEMORY 10 '', ''127.0.0.1'', 55355) \<and>
   (0::int) \<le> 0x10 \<and> upper_hex (format_X 0x10)"
proof -
  have s: "socket_raises (reply ''ok'') = None" and t: "settimeout (timeout default_client) = None"
    by code_simp+
  have v: "(''WRITE_CORE_MEMORY '' @ format_X 0x10 @ '' '', host default_client, port default_client) =
     (''WRITE_CORE_MEMORY 10 '', ''127.0.0.1'', 55355)"
    by code_simp
  have a: "(0::int) \<le> 0x10" by simp
  show ?thesis
    using write_core_memory_empty [of default_client "reply ''ok''" "0x10"] s t v a by blast
qed

section \<open>Waiting for readiness\<close>

lemma version_poll:
  "send_nci_command self w (Command VERSION) [] True = send self w ''VERSION'' True"
  by (simp add: send_nci_command_def cmd_run_def cmd_full_def send_def)

lemma wait_loop_absent:
  assumes "sleep poll_interval = None" and "length ts = length fails"
    and "\<forall>t\<in>set ts. t - start < timeout_sec"
    and "\<forall>w\<in>set fails. send_nci_command self w (Command VERSION) [] True = Inr None"
  shows "wait_loop self start timeout_sec poll_interval (ts @ ts') (fails @ ws') =
         wait_loop self start timeout_sec poll_interval ts' ws'"
  using assms(2,3,4) by (induction ts fails rule: list_induct2) (simp_all add: assms(1))

text \<open>
  Claim C7, as stated, fails for a \<open>poll_interval\<close> that \<open>time.sleep\<close> refuses: the only
  poll within the budget yields no response, and \<open>wait_for_ready\<close> raises the ValueError
  of a negative interval, or the OverflowError of one that does not fit 64-bit
  nanoseconds, instead of returning false.
\<close>

theorem wait_for_ready_negative_interval_counterexample:
  "send_nci_command default_client silent (Command VERSION) [] True = Inr None \<and>
   wait_for_ready default_client [0, 0, 11] [silent] 10 (- 1) = Some (Inl ValueError) \<and>
   wait_for_ready default_client [0, 0, 11] [silent] 10 (10 ^ 10) = Some (Inl OverflowError)"
  by code_simp

text \<open>
  Claim C7, amended. Let \<open>poll_interval\<close> be one that \<open>time.sleep\<close> accepts: not
  negative, and fitting 64-bit nanoseconds. Let the first polls, all made while the clock
  is within \<open>timeout_sec\<close> of the start, yield no response. If the next reading of the
  clock is outside the budget, \<open>wait_for_ready\<close> returns false. If it is within the budget
  and the next poll yields any response, \<open>wait_for_ready\<close> returns true at once, whatever
  would come later.
\<close>

theorem wait_for_ready_result:
  assumes "0 \<le> poll_interval" and "poll_interval * 10 ^ 9 \<le> 2 ^ 63 - 1"
    and "length ts = length fails"
    and "\<forall>t\<in>set ts. t - start < timeout_sec"
    and "\<forall>w\<in>set fails. send_nci_command self w (Command VERSION) [] True = Inr None"
  shows "(\<not> t - start < timeout_sec \<longrightarrow>
            wait_for_ready self (start # ts @ t # more_ts) (fails @ more_ws) timeout_sec poll_interval
              = Some (Inr False)) \<and>
         (t - start < timeout_sec \<and>
          send_nci_command self w (Command VERSION) [] True = Inr (Some resp) \<longrightarrow>
            wait_for_ready self (start # ts @ t # more_ts) (fails @ w # more_ws) timeout_sec
              poll_interval = Some (Inr True))"
proof -
  have "sleep poll_interval = None"
    using assms(1,2) by (simp add: sleep_None_iff)
  then show ?thesis
    using wait_loop_absent [OF _ assms(3-5)] by (simp add: wait_for_ready_def)
qed

theorem wait_for_ready_result_witness:
  "(0::real) \<le> 1 / 4 \<and> (1 / 4 :: real) * 10 ^ 9 \<le> 2 ^ 63 - 1 \<and>
   length [1 / 2, 2 :: real] = length [silent, silent] \<and>
   (1 / 2 :: real) - 0 < 10 \<and> (2 :: real) - 0 < 10 \<and>
   send_nci_command default_client silent (Command VERSION) [] True = Inr None \<and>
   \<not> (11 :: real) - 0 < 10 \<and>
   wait_for_ready default_client (0 # [1 / 2, 2] @ 11 # []) ([silent, silent] @ []) 10 (1 / 4)
     = Some (Inr False) \<and>
   (4 :: real) - 0 < 10 \<and>
   send_nci_command default_client (reply ''1.19.1'') (Command VERSION) [] True = Inr (Some ''1.19.1'') \<and>
   wait_for_ready default_client (0 # [1 / 2, 2] @ 4 # []) ([silent, silent] @ reply ''1.19.1'' # [])
     10 (1 / 4) = Some (Inr True)"
proof -
  have p: "(0::real) \<le> 1 / 4" and q: "(1 / 4 :: real) * 10 ^ 9 \<le> 2 ^ 63 - 1"
    and l: "length [1 / 2, 2 :: real] = length [silent, silent]"
    and b: "\<forall>t\<in>set [1 / 2, 2 :: real]. t - 0 < 10"
    and e: "\<not> (11 :: real) - 0 < 10" and i: "(4 :: real) - 0 < 10"
    by simp_all
  have f': "send_nci_command default_client silent (Command VERSION) [] True = Inr None"
    by code_simp
  have f: "\<forall>w\<in>set [silent, silent].
             send_nci_command default_client w (Command VERSION) [] True = Inr None"
    using f' by simp
  have s: "send_nci_command default_client (reply ''1.19.1'') (Command VERSION) [] True
             = Inr (Some ''1.19.1'')"
    by code_simp
  have b': "(1 / 2 :: real) - 0 < 10 \<and> (2 :: real) - 0 < 10"
    by simp
  show ?thesis
    using wait_for_ready_result [OF p q l b f, where t = 11 and more_ts = "[]" and more_ws = "[]"]
      wait_for_ready_result [OF p q l b f, where t = 4 and w = "reply ''1.19.1''"
        and resp = "''1.19.1''" and more_ts = "[]" and more_ws = "[]"]
      p q l b' f' e i s
    by blast
qed


end
